theory Spec2Isabelle
  imports Complex_Main "HOL-Library.Multiset"
begin

section \<open>Python values and exceptions\<close>

text \<open>
  Exceptions of the source are values: a computation that may raise returns
  \<open>py_error + 'a\<close>, with \<open>Inl\<close> for the exception. Every handler of the
  source is \<open>except Exception\<close> (or \<open>except FileNotFoundError\<close> in the
  dashboard), so the constructor only matters where a handler is selective.
\<close>

datatype py_error =
    ConnectionError
  | ValueError
  | IndexError
  | KeyError
  | AttributeError
  | TypeError
  | ZeroDivisionError
  | FileNotFoundError
  | ParserError
  | OverflowError

text \<open>\<open>xs[i]\<close> for a non-negative literal index: IndexError out of range.\<close>

definition py_index :: "'a list \<Rightarrow> nat \<Rightarrow> py_error + 'a" where
  "py_index xs i = (if i < length xs then Inr (xs ! i) else Inl IndexError)"

subsection \<open>String methods\<close>

definition startswith :: "string \<Rightarrow> string \<Rightarrow> bool" where
  "startswith s p = (take (length p) s = p)"

definition endswith :: "string \<Rightarrow> string \<Rightarrow> bool" where
  "endswith s p = (length p \<le> length s \<and> drop (length s - length p) s = p)"

text \<open>
  \<open>s.replace(old, new)\<close>: every non-overlapping occurrence of \<open>old\<close>, scanning
  from the left. With an empty \<open>old\<close> Python puts \<open>new\<close> before every character
  and at the end.
\<close>

function replace_str :: "string \<Rightarrow> string \<Rightarrow> string \<Rightarrow> string" where
  "replace_str old new s =
     (if old = [] then new @ concat (map (\<lambda>c. c # new) s)
      else if s = [] then []
      else if startswith s old then new @ replace_str old new (drop (length old) s)
      else hd s # replace_str old new (tl s))"
  by pat_completeness auto
termination
  by (relation "measure (\<lambda>(old, new, s). length s)") auto

declare replace_str.simps [simp del]

text \<open>
  \<open>s.strip()\<close>: leading and trailing whitespace removed. A character is one
  of the 256 code points of the type \<open>char\<close>; those that \<open>str.isspace\<close>
  holds of are tab to carriage return, the four separators, the blank, the
  next-line control U+0085 and the no-break space U+00A0. The whitespace
  above U+00FF has no character here.
\<close>

definition isspace :: "char \<Rightarrow> bool" where
  "isspace c =
     (let n = of_char c :: nat
      in (9 \<le> n \<and> n \<le> 13) \<or> (28 \<le> n \<and> n \<le> 32) \<or> n = 133 \<or> n = 160)"

definition strip :: "string \<Rightarrow> string" where
  "strip s = rev (dropWhile isspace (rev (dropWhile isspace s)))"


section \<open>The ticker sources (fetch\_data.py)\<close>

text \<open>
  A scraped table (a pandas DataFrame out of \<open>read_html\<close>) is its columns
  in order, each a name and its cells. A cell of a symbol column is a string
  or NaN (an empty cell).
\<close>

datatype cell = CStr string | CNaN

type_synonym html_table = "(string \<times> cell list) list"

definition columns :: "html_table \<Rightarrow> string list" where
  "columns df = map fst df"

text \<open>\<open>df[col].tolist()\<close>: KeyError when there is no such column.\<close>

definition col_tolist :: "html_table \<Rightarrow> string \<Rightarrow> py_error + cell list" where
  "col_tolist df col = (case map_of df col of None \<Rightarrow> Inl KeyError | Some cs \<Rightarrow> Inr cs)"

text \<open>
  The two library calls every scraper makes, as the environment:
  \<open>requests.get(url, headers).text\<close> and \<open>pd.read_html\<close>, each of which may
  raise.
\<close>

record web =
  requests_get :: "string \<Rightarrow> py_error + string"
  read_html :: "string \<Rightarrow> py_error + html_table list"

definition fetch_tables :: "web \<Rightarrow> string \<Rightarrow> py_error + html_table list" where
  "fetch_tables w url =
     (case requests_get w url of
        Inl e \<Rightarrow> Inl e
      | Inr page_text \<Rightarrow> read_html w page_text)"

text \<open>\<open>t.replace('.', '-')\<close> on a cell: a NaN cell is a float and has no such method.\<close>

definition cell_replace_dot :: "cell \<Rightarrow> py_error + string" where
  "cell_replace_dot c =
     (case c of CStr t \<Rightarrow> Inr (replace_str ''.'' ''-'' t) | CNaN \<Rightarrow> Inl AttributeError)"

text \<open>A list comprehension whose element expression may raise: the first exception ends it.\<close>

fun map_err :: "('a \<Rightarrow> py_error + 'b) \<Rightarrow> 'a list \<Rightarrow> py_error + 'b list" where
  "map_err f [] = Inr []"
| "map_err f (x # xs) =
     (case f x of
        Inl e \<Rightarrow> Inl e
      | Inr y \<Rightarrow> (case map_err f xs of Inl e \<Rightarrow> Inl e | Inr ys \<Rightarrow> Inr (y # ys)))"

text \<open>The handler shared by the four scrapers: \<open>except Exception: ... return []\<close>.\<close>

definition or_empty :: "py_error + string list \<Rightarrow> string list" where
  "or_empty r = (case r of Inl e \<Rightarrow> [] | Inr ts \<Rightarrow> ts)"

subsection \<open>S\&P 500\<close>

definition sp500_url :: string where
  "sp500_url = ''https://en.wikipedia.org/wiki/List_of_S%26P_500_companies''"

definition sp500_body :: "web \<Rightarrow> py_error + string list" where
  "sp500_body w =
     (case fetch_tables w sp500_url of
        Inl e \<Rightarrow> Inl e
      | Inr tables \<Rightarrow>
          (case py_index tables 0 of
             Inl e \<Rightarrow> Inl e
           | Inr df \<Rightarrow>
               (case col_tolist df ''Symbol'' of
                  Inl e \<Rightarrow> Inl e
                | Inr cs \<Rightarrow> map_err cell_replace_dot cs)))"

definition get_sp500_tickers :: "web \<Rightarrow> string list" where
  "get_sp500_tickers w = or_empty (sp500_body w)"

subsection \<open>Nasdaq-100 and Russell 1000\<close>

text \<open>
  The search loop of both: the first table with one of the two column names,
  \<open>None\<close> when the loop ends without a \<open>break\<close>.
\<close>

fun find_target :: "html_table list \<Rightarrow> html_table option" where
  "find_target [] = None"
| "find_target (df # dfs) =
     (if ''Ticker'' \<in> set (columns df) \<or> ''Symbol'' \<in> set (columns df)
      then Some df else find_target dfs)"

definition nasdaq100_url :: string where
  "nasdaq100_url = ''https://en.wikipedia.org/wiki/Nasdaq-100''"

definition nasdaq100_body :: "web \<Rightarrow> py_error + string list" where
  "nasdaq100_body w =
     (case fetch_tables w nasdaq100_url of
        Inl e \<Rightarrow> Inl e
      | Inr tables \<Rightarrow>
          (case find_target tables of
             None \<Rightarrow> Inr []
           | Some target_df \<Rightarrow>
               (let col = (if ''Ticker'' \<in> set (columns target_df) then ''Ticker'' else ''Symbol'')
                in case col_tolist target_df col of
                     Inl e \<Rightarrow> Inl e
                   | Inr cs \<Rightarrow> map_err cell_replace_dot cs)))"

definition get_nasdaq100_tickers :: "web \<Rightarrow> string list" where
  "get_nasdaq100_tickers w = or_empty (nasdaq100_body w)"

definition russell1000_url :: string where
  "russell1000_url = ''https://en.wikipedia.org/wiki/Russell_1000_Index''"

definition russell1000_body :: "web \<Rightarrow> py_error + string list" where
  "russell1000_body w =
     (case fetch_tables w russell1000_url of
        Inl e \<Rightarrow> Inl e
      | Inr tables \<Rightarrow>
          (case find_target tables of
             None \<Rightarrow> Inr []
           | Some target_df \<Rightarrow>
               (let col = (if ''Symbol'' \<in> set (columns target_df) then ''Symbol'' else ''Ticker'')
                in case col_tolist target_df col of
                     Inl e \<Rightarrow> Inl e
                   | Inr cs \<Rightarrow> map_err cell_replace_dot cs)))"

definition get_russell1000_tickers :: "web \<Rightarrow> string list" where
  "get_russell1000_tickers w = or_empty (russell1000_body w)"

subsection \<open>S\&P/TSX Composite\<close>

definition tsx_url :: string where
  "tsx_url = ''https://en.wikipedia.org/wiki/S%26P/TSX_Composite_Index''"

definition possible_names :: "string list" where
  "possible_names = [''Ticker'', ''Symbol'', ''Ticker symbol'']"

text \<open>\<open>next((name for name in possible_names if name in df.columns), None)\<close>\<close>

definition find_col_name :: "html_table \<Rightarrow> string option" where
  "find_col_name df =
     (case filter (\<lambda>name. name \<in> set (columns df)) possible_names of
        [] \<Rightarrow> None
      | name # _ \<Rightarrow> Some name)"

text \<open>\<open>str(ticker)\<close> of a cell: a NaN cell prints as \<open>nan\<close>.\<close>

definition cell_str :: "cell \<Rightarrow> string" where
  "cell_str c = (case c of CStr t \<Rightarrow> t | CNaN \<Rightarrow> ''nan'')"

definition clean_ticker :: "cell \<Rightarrow> string" where
  "clean_ticker ticker =
     (let t = strip (cell_str ticker);
          t = replace_str ''.'' ''-'' t
      in if \<not> endswith t ''.TO'' then t @ ''.TO'' else t)"

text \<open>The guard before the table is taken: \<open>if len(tables) < 3: return []\<close>.\<close>

definition tsx_guard_fires :: "html_table list \<Rightarrow> bool" where
  "tsx_guard_fires tables = (length tables < 3)"

definition tsx_pick :: "html_table list \<Rightarrow> py_error + string list" where
  "tsx_pick tables =
     (if tsx_guard_fires tables then Inr []
      else case py_index tables 3 of
             Inl e \<Rightarrow> Inl e
           | Inr df \<Rightarrow>
               (case find_col_name df of
                  None \<Rightarrow> Inr []
                | Some col_name \<Rightarrow>
                    (if col_name = [] then Inr []
                     else case col_tolist df col_name of
                            Inl e \<Rightarrow> Inl e
                          | Inr cs \<Rightarrow> Inr (map clean_ticker cs))))"

definition tsx_body :: "web \<Rightarrow> py_error + string list" where
  "tsx_body w =
     (case fetch_tables w tsx_url of
        Inl e \<Rightarrow> Inl e
      | Inr tables \<Rightarrow> tsx_pick tables)"

definition get_tsx_composite_tickers :: "web \<Rightarrow> string list" where
  "get_tsx_composite_tickers w = or_empty (tsx_body w)"

subsection \<open>The fixed list\<close>

definition get_custom_tickers :: "string list" where
  "get_custom_tickers =
     [''GME'', ''AMC'', ''PLTR'', ''HOOD'', ''COIN'', ''RIVN'', ''SOFI'',
      ''ARKK'', ''SPY'', ''QQQ'', ''IWM'', ''APLD'', ''MARA'', ''CIFR'', ''IREN'',
      ''AEVA'', ''INOD'', ''NBIS'']"

section \<open>Python numbers\<close>

text \<open>
  A Python \<open>float\<close> is an IEEE 754 double: a finite value, written here as
  the rational number it denotes, an infinity (\<open>Inf True\<close> the positive one)
  or NaN. The two zeros are one value (\<open>-0.0 == 0.0\<close> in Python).
\<close>

datatype pyfloat = Finite rat | Inf bool | NaN

text \<open>The nearest integer, a tie going to the even neighbour.\<close>

definition round_half_even :: "rat \<Rightarrow> int" where
  "round_half_even x =
     (let f = \<lfloor>x\<rfloor>; d = x - of_int f
      in if d < 1 / 2 then f
         else if 1 / 2 < d then f + 1
         else if even f then f else f + 1)"

text \<open>The number of binary digits of a positive integer.\<close>

function bitlen :: "int \<Rightarrow> nat" where
  "bitlen a = (if a \<le> 0 then 0 else Suc (bitlen (a div 2)))"
  by pat_completeness auto
termination
  by (relation "measure nat") auto

declare bitlen.simps [simp del]

text \<open>
  The binary exponent of a rational \<open>x\<close> other than zero: the \<open>e\<close> with
  \<open>2 powi e \<le> \<bar>x\<bar>\<close> and \<open>\<bar>x\<bar> < 2 powi (e + 1)\<close>. The digit counts
  of numerator and denominator give it up to one, the comparison decides.
\<close>

definition ilog2 :: "rat \<Rightarrow> int" where
  "ilog2 x =
     (let (a, b) = quotient_of \<bar>x\<bar>;
          k = int (bitlen a) - int (bitlen b)
      in if 2 powi k \<le> \<bar>x\<bar> then k else k - 1)"

text \<open>
  The double nearest to a rational, as every arithmetic operation and every
  conversion delivers it: 53 significant bits, a tie to the even significand,
  the subnormal spacing \<open>2 powi (- 1074)\<close> below \<open>2 powi (- 1022)\<close>, an
  infinity when the rounded magnitude reaches \<open>2 ^ 1024\<close>.
\<close>

definition fl :: "rat \<Rightarrow> pyfloat" where
  "fl x =
     (if x = 0 then Finite 0
      else let e = max (ilog2 x) (- 1022);
               q = 2 powi (e - 52);
               m = round_half_even (x / q)
           in if 1024 \<le> e \<or> (e = 1023 \<and> \<bar>m\<bar> = 2 ^ 53) then Inf (0 < x)
              else Finite (of_int m * q))"

text \<open>
  Subtraction, division by a divisor other than zero, and multiplication of
  floats. None of them raises: an overflow gives an infinity, an undefined
  result NaN.
\<close>

definition fsub :: "pyfloat \<Rightarrow> pyfloat \<Rightarrow> pyfloat" where
  "fsub x y =
     (case (x, y) of
        (Finite a, Finite b) \<Rightarrow> fl (a - b)
      | (Finite a, Inf s) \<Rightarrow> Inf (\<not> s)
      | (Inf s, Finite b) \<Rightarrow> Inf s
      | (Inf s, Inf s') \<Rightarrow> (if s = s' then NaN else Inf s)
      | _ \<Rightarrow> NaN)"

definition fdiv :: "pyfloat \<Rightarrow> pyfloat \<Rightarrow> pyfloat" where
  "fdiv x y =
     (case (x, y) of
        (Finite a, Finite b) \<Rightarrow> fl (a / b)
      | (Finite a, Inf s) \<Rightarrow> Finite 0
      | (Inf s, Finite b) \<Rightarrow> Inf (s = (0 < b))
      | _ \<Rightarrow> NaN)"

definition fmul :: "pyfloat \<Rightarrow> pyfloat \<Rightarrow> pyfloat" where
  "fmul x y =
     (case (x, y) of
        (Finite a, Finite b) \<Rightarrow> fl (a * b)
      | (Finite a, Inf s) \<Rightarrow> (if a = 0 then NaN else Inf (s = (0 < a)))
      | (Inf s, Finite b) \<Rightarrow> (if b = 0 then NaN else Inf (s = (0 < b)))
      | (Inf s, Inf s') \<Rightarrow> Inf (s = s')
      | _ \<Rightarrow> NaN)"

text \<open>
  \<open>round(x, 2)\<close> of a float: the decimal with two places nearest to the value
  of \<open>x\<close>, a tie to the even last digit, and of that decimal the nearest
  double. An infinity and NaN come back as they are.
\<close>

definition round2 :: "pyfloat \<Rightarrow> pyfloat" where
  "round2 x =
     (case x of
        Finite a \<Rightarrow> fl (of_int (round_half_even (a * 100)) / 100)
      | _ \<Rightarrow> x)"


section \<open>The analyst-data fetcher (fetch\_data.py)\<close>

text \<open>
  A value of the remote source's \<open>info\<close> dictionary: \<open>None\<close>, an \<open>int\<close>
  (unbounded), a \<open>float\<close> or a string. Booleans and containers are not
  values of the keys the code reads.
\<close>

datatype pyval = PNone | PInt int | PFloat pyfloat | PStr string

text \<open>
  Truth value of \<open>if x\<close>: \<open>None\<close>, zero and the empty string are false; NaN
  and the infinities are true.
\<close>

fun truthy :: "pyval \<Rightarrow> bool" where
  "truthy PNone = False"
| "truthy (PInt i) = (i \<noteq> 0)"
| "truthy (PFloat x) = (x \<noteq> Finite 0)"
| "truthy (PStr s) = (s \<noteq> [])"

text \<open>
  An \<open>int\<close> operand of a float operation is converted first, to the nearest
  double; OverflowError when that is no finite one.
\<close>

definition to_float :: "int \<Rightarrow> py_error + pyfloat" where
  "to_float i = (case fl (of_int i) of Inf s \<Rightarrow> Inl OverflowError | y \<Rightarrow> Inr y)"

text \<open>
  \<open>v - w\<close>: exact on two ints, the float operation as soon as one operand is
  a float, TypeError for \<open>None\<close> and strings.
\<close>

definition py_sub :: "pyval \<Rightarrow> pyval \<Rightarrow> py_error + pyval" where
  "py_sub v w =
     (case (v, w) of
        (PInt a, PInt b) \<Rightarrow> Inr (PInt (a - b))
      | (PInt a, PFloat y) \<Rightarrow>
          (case to_float a of Inl e \<Rightarrow> Inl e | Inr x \<Rightarrow> Inr (PFloat (fsub x y)))
      | (PFloat x, PInt b) \<Rightarrow>
          (case to_float b of Inl e \<Rightarrow> Inl e | Inr y \<Rightarrow> Inr (PFloat (fsub x y)))
      | (PFloat x, PFloat y) \<Rightarrow> Inr (PFloat (fsub x y))
      | _ \<Rightarrow> Inl TypeError)"

text \<open>
  \<open>v / w\<close>, always a float: ZeroDivisionError on a zero divisor; of two ints
  the double nearest to the exact quotient, OverflowError when there is none.
\<close>

definition float_div :: "pyfloat \<Rightarrow> pyfloat \<Rightarrow> py_error + pyfloat" where
  "float_div x y = (if y = Finite 0 then Inl ZeroDivisionError else Inr (fdiv x y))"

definition py_truediv :: "pyval \<Rightarrow> pyval \<Rightarrow> py_error + pyfloat" where
  "py_truediv v w =
     (case (v, w) of
        (PInt a, PInt b) \<Rightarrow>
          (if b = 0 then Inl ZeroDivisionError
           else case fl (of_int a / of_int b) of Inf s \<Rightarrow> Inl OverflowError | y \<Rightarrow> Inr y)
      | (PInt a, PFloat y) \<Rightarrow>
          (case to_float a of Inl e \<Rightarrow> Inl e | Inr x \<Rightarrow> float_div x y)
      | (PFloat x, PInt b) \<Rightarrow>
          (case to_float b of Inl e \<Rightarrow> Inl e | Inr y \<Rightarrow> float_div x y)
      | (PFloat x, PFloat y) \<Rightarrow> float_div x y
      | _ \<Rightarrow> Inl TypeError)"

type_synonym info_dict = "string \<rightharpoonup> pyval"

text \<open>\<open>d.get(key)\<close> and \<open>d.get(key, default)\<close>: the default only when the key is missing.\<close>

definition dict_get :: "info_dict \<Rightarrow> string \<Rightarrow> pyval" where
  "dict_get d key = (case d key of None \<Rightarrow> PNone | Some v \<Rightarrow> v)"

definition dict_get_default :: "info_dict \<Rightarrow> string \<Rightarrow> pyval \<Rightarrow> pyval" where
  "dict_get_default d key dflt = (case d key of None \<Rightarrow> dflt | Some v \<Rightarrow> v)"

text \<open>
  The recommendation table: its rows, each a map from column name to a numeric
  cell, which may be NaN.
\<close>

datatype rcell = RNum rat | RNaN

type_synonym rec_row = "string \<rightharpoonup> rcell"

text \<open>
  What \<open>yf.Ticker(symbol)\<close> gives: the two properties the code reads, each of
  which goes to the network and may raise. \<open>recommendations\<close> may be \<open>None\<close>.
\<close>

record stock =
  info :: "py_error + info_dict"
  recommendations :: "py_error + rec_row list option"

type_synonym remote = "string \<Rightarrow> stock"

text \<open>One dictionary appended to \<open>data_list\<close>, a row of the returned dataframe.\<close>

record quote_row =
  Ticker :: string
  Price :: pyval
  Currency :: pyval
  Target_Price :: pyval
  Upside_Potential :: pyfloat
  Num_Analysts :: pyval
  Strong_Buy :: int
  Buy :: int
  Hold :: int
  Sell :: int
  Strong_Sell :: int
  Rating :: pyval
  Sector :: pyval
  Trailing_PE :: pyval
  Forward_PE :: pyval
  Dividend_Yield :: pyval

text \<open>
  \<open>((target_mean - current_price) / current_price) * 100\<close>, evaluated as
  Python does: the difference, the quotient (a float), and its product with
  the int 100, which is converted to the float 100.0.
\<close>

definition upside_of :: "pyval \<Rightarrow> pyval \<Rightarrow> py_error + pyfloat" where
  "upside_of target_mean current_price =
     (case py_sub target_mean current_price of
        Inl e \<Rightarrow> Inl e
      | Inr diff \<Rightarrow>
          (case py_truediv diff current_price of
             Inl e \<Rightarrow> Inl e
           | Inr ratio \<Rightarrow> Inr (fmul ratio (Finite 100))))"

text \<open>\<open>int(x)\<close> of a numeric cell: truncation towards zero, ValueError on NaN.\<close>

definition py_int :: "rcell \<Rightarrow> py_error + int" where
  "py_int c =
     (case c of
        RNaN \<Rightarrow> Inl ValueError
      | RNum q \<Rightarrow> Inr (if 0 \<le> q then \<lfloor>q\<rfloor> else \<lceil>q\<rceil>))"

definition row_get :: "rec_row \<Rightarrow> string \<Rightarrow> rcell" where
  "row_get latest key = (case latest key of None \<Rightarrow> RNum 0 | Some v \<Rightarrow> v)"

text \<open>
  The inner \<open>try\<close>: the five counts start at 0 and are read from the first row
  of the recommendation table when there is one; an exception reading the
  property leaves them at 0.
\<close>

definition rec_counts :: "stock \<Rightarrow> rcell \<times> rcell \<times> rcell \<times> rcell \<times> rcell" where
  "rec_counts st =
     (let zeros = (RNum 0, RNum 0, RNum 0, RNum 0, RNum 0)
      in case recommendations st of
           Inl e \<Rightarrow> zeros
         | Inr None \<Rightarrow> zeros
         | Inr (Some recs) \<Rightarrow>
             (case recs of
                [] \<Rightarrow> zeros
              | latest # _ \<Rightarrow>
                  (row_get latest ''strongBuy'', row_get latest ''buy'', row_get latest ''hold'',
                   row_get latest ''sell'', row_get latest ''strongSell'')))"

text \<open>
  The dictionary literal: the five \<open>int(...)\<close> calls may raise, in this order.
\<close>

definition build_row ::
  "string \<Rightarrow> info_dict \<Rightarrow> pyval \<Rightarrow> pyval \<Rightarrow> pyval \<Rightarrow> pyfloat \<Rightarrow>
   rcell \<times> rcell \<times> rcell \<times> rcell \<times> rcell \<Rightarrow> py_error + quote_row" where
  "build_row current_ticker info_d current_price target_mean div_yield upside cs =
     (case cs of (strong_buy, buy, hold, sell, strong_sell) \<Rightarrow>
        (case py_int strong_buy of Inl e \<Rightarrow> Inl e | Inr sb \<Rightarrow>
        (case py_int buy of Inl e \<Rightarrow> Inl e | Inr b \<Rightarrow>
        (case py_int hold of Inl e \<Rightarrow> Inl e | Inr h \<Rightarrow>
        (case py_int sell of Inl e \<Rightarrow> Inl e | Inr s \<Rightarrow>
        (case py_int strong_sell of Inl e \<Rightarrow> Inl e | Inr ss \<Rightarrow>
           Inr \<lparr> Ticker = current_ticker,
                 Price = current_price,
                 Currency = dict_get_default info_d ''currency'' (PStr ''USD''),
                 Target_Price = target_mean,
                 Upside_Potential = round2 upside,
                 Num_Analysts = dict_get_default info_d ''numberOfAnalystOpinions'' (PInt 0),
                 Strong_Buy = sb, Buy = b, Hold = h, Sell = s, Strong_Sell = ss,
                 Rating = dict_get_default info_d ''recommendationKey'' (PStr ''N/A''),
                 Sector = dict_get_default info_d ''sector'' (PStr ''Unknown''),
                 Trailing_PE = dict_get info_d ''trailingPE'',
                 Forward_PE = dict_get info_d ''forwardPE'',
                 Dividend_Yield = div_yield \<rparr>))))))"

text \<open>
  The body of the outer \<open>try\<close> for one symbol: \<open>Inl\<close> when it raises,
  \<open>Inr None\<close> when it ends in the \<open>else: pass\<close> branch, \<open>Inr (Some row)\<close> when
  it appends a row. The source computes \<open>upside\<close> under the same test twice.
\<close>

definition try_body :: "remote \<Rightarrow> string \<Rightarrow> py_error + quote_row option" where
  "try_body src current_ticker =
     (let st = src current_ticker
      in case info st of
           Inl e \<Rightarrow> Inl e
         | Inr info_d \<Rightarrow>
             (let current_price = dict_get info_d ''currentPrice'';
                  target_mean = dict_get info_d ''targetMeanPrice'';
                  div_yield = dict_get_default info_d ''dividendYield'' (PInt 0);
                  div_yield = (if div_yield = PNone then PInt 0 else div_yield)
              in case (if truthy current_price \<and> truthy target_mean
                       then upside_of target_mean current_price else Inr (Finite 0)) of
                   Inl e \<Rightarrow> Inl e
                 | Inr _ \<Rightarrow>
                     (if truthy current_price \<and> truthy target_mean
                      then (case upside_of target_mean current_price of
                              Inl e \<Rightarrow> Inl e
                            | Inr upside \<Rightarrow>
                                (case build_row current_ticker info_d current_price target_mean
                                        div_yield upside (rec_counts st) of
                                   Inl e \<Rightarrow> Inl e
                                 | Inr row \<Rightarrow> Inr (Some row)))
                      else Inr None)))"

text \<open>
  The loop state: \<open>data_list\<close> and \<open>success\<close> are the source's variables;
  \<open>queried\<close> records every symbol for which the remote source is asked, in order.
\<close>

record loop_state =
  data_list :: "quote_row list"
  success :: bool
  queried :: "string list"

text \<open>\<open>attempts = [ticker]\<close>, and the \<open>.NE\<close> variant for a ticker ending in \<open>.TO\<close>.\<close>

definition attempts :: "string \<Rightarrow> string list" where
  "attempts ticker =
     [ticker] @ (if endswith ticker ''.TO'' then [replace_str ''.TO'' ''.NE'' ticker] else [])"

text \<open>One pass of the inner loop body, with its \<open>except Exception: pass\<close>.\<close>

definition attempt :: "remote \<Rightarrow> string \<Rightarrow> loop_state \<Rightarrow> loop_state" where
  "attempt src current_ticker s =
     (case try_body src current_ticker of
        Inr (Some row) \<Rightarrow>
          s\<lparr>data_list := data_list s @ [row], success := True,
            queried := queried s @ [current_ticker]\<rparr>
      | _ \<Rightarrow> s\<lparr>queried := queried s @ [current_ticker]\<rparr>)"

fun attempts_loop :: "remote \<Rightarrow> string list \<Rightarrow> loop_state \<Rightarrow> loop_state" where
  "attempts_loop src [] s = s"
| "attempts_loop src (current_ticker # rest) s =
     (if success s then s else attempts_loop src rest (attempt src current_ticker s))"

definition process_ticker :: "remote \<Rightarrow> string \<Rightarrow> loop_state \<Rightarrow> loop_state" where
  "process_ticker src ticker s = attempts_loop src (attempts ticker) (s\<lparr>success := False\<rparr>)"

fun tickers_loop :: "remote \<Rightarrow> string list \<Rightarrow> loop_state \<Rightarrow> loop_state" where
  "tickers_loop src [] s = s"
| "tickers_loop src (ticker # rest) s = tickers_loop src rest (process_ticker src ticker s)"

definition init_state :: loop_state where
  "init_state = \<lparr>data_list = [], success = False, queried = []\<rparr>"

definition fetch_analyst_data :: "remote \<Rightarrow> string list \<Rightarrow> quote_row list" where
  "fetch_analyst_data src tickers = data_list (tickers_loop src tickers init_state)"

text \<open>The symbols the remote source is asked for during a run, and for one ticker.\<close>

definition remote_calls :: "remote \<Rightarrow> string list \<Rightarrow> string list" where
  "remote_calls src tickers = queried (tickers_loop src tickers init_state)"

definition calls_for :: "remote \<Rightarrow> string \<Rightarrow> string list" where
  "calls_for src ticker = queried (process_ticker src ticker init_state)"

definition rows_for :: "remote \<Rightarrow> string \<Rightarrow> quote_row list" where
  "rows_for src ticker = data_list (process_ticker src ticker init_state)"

text \<open>An attempt succeeds when the body of the \<open>try\<close> appends a row.\<close>

definition attempt_ok :: "remote \<Rightarrow> string \<Rightarrow> bool" where
  "attempt_ok src symbol = (case try_body src symbol of Inr (Some row) \<Rightarrow> True | _ \<Rightarrow> False)"

definition some_attempt_ok :: "remote \<Rightarrow> string \<Rightarrow> bool" where
  "some_attempt_ok src ticker = list_ex (attempt_ok src) (attempts ticker)"

text \<open>The concatenation the main block deduplicates: the four scraped lists and the fixed one.\<close>

definition combined :: "web \<Rightarrow> string list" where
  "combined w = get_sp500_tickers w @ get_nasdaq100_tickers w @ get_russell1000_tickers w
                @ get_tsx_composite_tickers w @ get_custom_tickers"

text \<open>
  \<open>master_list = list(set(...))\<close>: Python fixes neither the order of a set nor
  of the list made from it, so the master list is any list without repetition
  that has the elements of the concatenation.
\<close>

definition is_master_list :: "string list \<Rightarrow> string list \<Rightarrow> bool" where
  "is_master_list xs ms = (distinct ms \<and> set ms = set xs)"


section \<open>The dashboard (app.py)\<close>

text \<open>
  A row of the persisted file as pandas reads it back. A numeric column is a
  float column whose empty fields are NaN (\<open>None\<close> here), a label column holds
  strings or NaN. The columns carry the names of the file in lower case, the
  capitalised names being those of the fetcher's dictionary.
\<close>

record df_row =
  ticker :: string
  num_analysts :: "rat option"
  upside_potential :: "rat option"
  dividend_yield :: "rat option"
  rating :: "string option"
  sector :: "string option"
  forward_pe :: "rat option"
  trailing_pe :: "rat option"

type_synonym dataframe = "df_row list"

text \<open>\<open>df[col] >= floor\<close> on one value: a comparison with NaN is false.\<close>

definition ge_floor :: "rat option \<Rightarrow> rat \<Rightarrow> bool" where
  "ge_floor v m = (case v of None \<Rightarrow> False | Some x \<Rightarrow> m \<le> x)"

text \<open>\<open>df[col].isin(values)\<close> on one value; pandas matches NaN with NaN.\<close>

definition isin :: "'a option \<Rightarrow> 'a option list \<Rightarrow> bool" where
  "isin v vs = (v \<in> set vs)"

text \<open>
  The boolean mask of step 3. The slider gives an integer, the two number
  inputs floats; the sector multiselect offers the non-NaN sectors only.
\<close>

definition filtered_df ::
  "dataframe \<Rightarrow> int \<Rightarrow> rat \<Rightarrow> rat \<Rightarrow> string option list \<Rightarrow> string list \<Rightarrow> dataframe" where
  "filtered_df df min_analysts min_upside min_div rating_filter selected_sectors =
     filter (\<lambda>r. ge_floor (num_analysts r) (of_int min_analysts) \<and>
                 ge_floor (upside_potential r) min_upside \<and>
                 ge_floor (dividend_yield r) min_div \<and>
                 isin (rating r) rating_filter \<and>
                 isin (sector r) (map Some selected_sectors)) df"

text \<open>\<open>ascending=(sort_col in ["Forward_PE", "Trailing_PE"])\<close>\<close>

definition ascending :: "string \<Rightarrow> bool" where
  "ascending sort_col = (sort_col \<in> set [''Forward_PE'', ''Trailing_PE''])"

text \<open>The column the radio button names, one of its four options.\<close>

definition column_of :: "string \<Rightarrow> df_row \<Rightarrow> rat option" where
  "column_of sort_col r =
     (if sort_col = ''Upside_Potential'' then upside_potential r
      else if sort_col = ''Num_Analysts'' then num_analysts r
      else if sort_col = ''Forward_PE'' then forward_pe r
      else trailing_pe r)"

definition num_or_zero :: "rat option \<Rightarrow> rat" where
  "num_or_zero v = (case v of None \<Rightarrow> 0 | Some x \<Rightarrow> x)"

text \<open>
  \<open>DataFrame.sort_values(by, ascending)\<close> of pandas, as its documentation
  describes it: the rows with a value in the order asked for, the rows with NaN
  after them in both directions. The order among equal values is left open by
  the library's default algorithm; here it is that of an insertion sort.
\<close>

definition sort_values :: "(df_row \<Rightarrow> rat option) \<Rightarrow> bool \<Rightarrow> dataframe \<Rightarrow> dataframe" where
  "sort_values key asc df =
     (let present = filter (\<lambda>r. key r \<noteq> None) df;
          missing = filter (\<lambda>r. key r = None) df
      in (if asc then sort_key (\<lambda>r. num_or_zero (key r)) present
          else sort_key (\<lambda>r. - num_or_zero (key r)) present) @ missing)"

definition sorted_df :: "dataframe \<Rightarrow> string \<Rightarrow> dataframe" where
  "sorted_df df sort_col = sort_values (column_of sort_col) (ascending sort_col) df"

text \<open>The values of a column that are not NaN, in row order.\<close>

definition present_values :: "(df_row \<Rightarrow> rat option) \<Rightarrow> dataframe \<Rightarrow> rat list" where
  "present_values key df = List.map_filter key df"

text \<open>
  The persisted file: \<open>None\<close> when \<open>stock_data.csv\<close> does not exist, otherwise
  what \<open>pd.read_csv\<close> makes of its content, a dataframe or an exception.
\<close>

type_synonym csv_file = "(py_error + dataframe) option"

definition read_csv :: "csv_file \<Rightarrow> py_error + dataframe" where
  "read_csv file = (case file of None \<Rightarrow> Inl FileNotFoundError | Some content \<Rightarrow> content)"

text \<open>The body of \<open>load_data\<close>: only FileNotFoundError is caught.\<close>

definition load_data :: "csv_file \<Rightarrow> py_error + dataframe option" where
  "load_data file =
     (case read_csv file of
        Inl e \<Rightarrow> (if e = FileNotFoundError then Inr None else Inl e)
      | Inr df \<Rightarrow> Inr (Some df))"

text \<open>
  \<open>@st.cache_data(ttl="2h")\<close>: with a live entry the stored return value is
  handed back and the body does not run; \<open>None\<close> is no entry (never loaded,
  expired, or cleared by the refresh button).
\<close>

definition cached_load_data :: "dataframe option option \<Rightarrow> csv_file \<Rightarrow> py_error + dataframe option" where
  "cached_load_data cache file = (case cache of Some v \<Rightarrow> Inr v | None \<Rightarrow> load_data file)"

text \<open>
  The script up to line 26: an exception out of \<open>load_data\<close> ends the run,
  \<open>None\<close> shows \<open>st.error\<close> and calls \<open>st.stop()\<close>, a dataframe goes on to the
  filters.
\<close>

datatype app_outcome = Crashed py_error | Error_shown_and_stopped | Proceeds dataframe

definition app_start :: "dataframe option option \<Rightarrow> csv_file \<Rightarrow> app_outcome" where
  "app_start cache file =
     (case cached_load_data cache file of
        Inl e \<Rightarrow> Crashed e
      | Inr None \<Rightarrow> Error_shown_and_stopped
      | Inr (Some df) \<Rightarrow> Proceeds df)"


section \<open>Notions of the specification\<close>

text \<open>
  A table has a recognizable symbol column when it has one of the names any
  scraper looks for; a source page is unusable when the request or the parse
  raises, or when no table of it has such a column.
\<close>

definition recognizable :: "html_table \<Rightarrow> bool" where
  "recognizable df = list_ex (\<lambda>name. name \<in> set (columns df)) possible_names"

definition page_unusable :: "web \<Rightarrow> string \<Rightarrow> bool" where
  "page_unusable w url =
     (case fetch_tables w url of
        Inl e \<Rightarrow> True
      | Inr tables \<Rightarrow> list_all (\<lambda>df. \<not> recognizable df) tables)"

text \<open>The specification's alternate symbol: the ticker with its last three characters replaced by \<open>.NE\<close>.\<close>

definition swap_suffix :: "string \<Rightarrow> string" where
  "swap_suffix t = take (length t - 3) t @ ''.NE''"

text \<open>
  A ticker in which \<open>.TO\<close> occurs only as the suffix: it ends in \<open>.TO\<close>, and
  \<open>.TO\<close> starts at no earlier position.
\<close>

definition suffix_only :: "string \<Rightarrow> bool" where
  "suffix_only t =
     (endswith t ''.TO'' \<and>
      list_all (\<lambda>i. \<not> startswith (drop i t) ''.TO'') [0..<length t - length ''.TO''])"

text \<open>The number a value of \<open>info\<close> denotes, when it is an int or a finite float.\<close>

fun num_of :: "pyval \<Rightarrow> rat option" where
  "num_of (PInt i) = Some (of_int i)"
| "num_of (PFloat (Finite x)) = Some x"
| "num_of _ = None"

text \<open>
  The effect of the inner loop on a list of symbols, as two functions: the row
  it appends (that of the first symbol whose attempt succeeds) and the symbols
  it asks the remote source for (all up to and including that one).
\<close>

fun found_rows :: "remote \<Rightarrow> string list \<Rightarrow> quote_row list" where
  "found_rows src [] = []"
| "found_rows src (c # cs) =
     (case try_body src c of Inr (Some row) \<Rightarrow> [row] | _ \<Rightarrow> found_rows src cs)"

fun tried :: "remote \<Rightarrow> string list \<Rightarrow> string list" where
  "tried src [] = []"
| "tried src (c # cs) = c # (if attempt_ok src c then [] else tried src cs)"

text \<open>The dividend yield after the \<open>None\<close> check.\<close>

definition div_yield_of :: "info_dict \<Rightarrow> pyval" where
  "div_yield_of d = (case d ''dividendYield'' of None \<Rightarrow> PInt 0 | Some PNone \<Rightarrow> PInt 0 | Some v \<Rightarrow> v)"


section \<open>Concrete inputs\<close>

definition three_tables :: "html_table list" where
  "three_tables =
     [[(''Ticker'', [CStr ''RY''])], [(''Ticker'', [CStr ''TD''])], [(''Ticker'', [CStr ''BNS''])]]"

definition web_three :: web where
  "web_three = \<lparr>requests_get = (\<lambda>url. Inr ''<html>''), read_html = (\<lambda>page_text. Inr three_tables)\<rparr>"

definition web_down :: web where
  "web_down = \<lparr>requests_get = (\<lambda>url. Inl ConnectionError), read_html = (\<lambda>page_text. Inl ValueError)\<rparr>"

definition web_nocol :: web where
  "web_nocol = \<lparr>requests_get = (\<lambda>url. Inr ''<html>''),
                 read_html = (\<lambda>page_text. Inr [[(''Company'', [CStr ''Royal Bank''])]])\<rparr>"

definition remote_down :: remote where
  "remote_down = (\<lambda>symbol. \<lparr>info = Inl ConnectionError, recommendations = Inl ConnectionError\<rparr>)"

definition demo_info :: info_dict where
  "demo_info =
     map_of [(''currentPrice'', PInt 3), (''targetMeanPrice'', PInt 4), (''sector'', PNone),
             (''dividendYield'', PNone)]"

definition demo_remote :: remote where
  "demo_remote = (\<lambda>symbol.
     if symbol = ''AAA'' \<or> symbol = ''BBB.NE''
     then \<lparr>info = Inr demo_info, recommendations = Inr None\<rparr>
     else \<lparr>info = Inl ConnectionError, recommendations = Inl ConnectionError\<rparr>)"

text \<open>A quote of 160 with a mean target of 183, as ints and as floats.\<close>

definition quote_ints :: info_dict where
  "quote_ints = map_of [(''currentPrice'', PInt 160), (''targetMeanPrice'', PInt 183)]"

definition quote_floats :: info_dict where
  "quote_floats =
     map_of [(''currentPrice'', PFloat (Finite 160)), (''targetMeanPrice'', PFloat (Finite 183))]"

definition quote_remote :: remote where
  "quote_remote = (\<lambda>symbol.
     if symbol = ''QI'' then \<lparr>info = Inr quote_ints, recommendations = Inr None\<rparr>
     else if symbol = ''QF'' then \<lparr>info = Inr quote_floats, recommendations = Inr None\<rparr>
     else \<lparr>info = Inl ConnectionError, recommendations = Inl ConnectionError\<rparr>)"

text \<open>An info whose dividend yield is NaN.\<close>

definition nan_remote :: remote where
  "nan_remote = (\<lambda>symbol.
     \<lparr>info = Inr (map_of [(''currentPrice'', PInt 3), (''targetMeanPrice'', PInt 4),
                           (''dividendYield'', PFloat NaN)]),
      recommendations = Inr None\<rparr>)"

text \<open>
  A web whose every page parses to the same four tables: the second has a
  Symbol column, the fourth a Ticker column.
\<close>

definition four_tables :: "html_table list" where
  "four_tables =
     [[(''Company'', [CStr ''Alpha''])],
      [(''Symbol'', [CStr ''AAA'', CStr ''BRK.B''])],
      [(''Name'', [CStr ''Beta''])],
      [(''Ticker'', [CStr ''BBB'', CStr '' RY.B ''])]]"

definition demo_web :: web where
  "demo_web = \<lparr>requests_get = (\<lambda>url. Inr ''<html>''), read_html = (\<lambda>page_text. Inr four_tables)\<rparr>"

definition demo_row :: "string \<Rightarrow> rat option \<Rightarrow> rat option \<Rightarrow> rat option \<Rightarrow> df_row" where
  "demo_row t n u pe =
     \<lparr>ticker = t, num_analysts = n, upside_potential = u, dividend_yield = Some 1,
      rating = Some ''buy'', sector = Some ''Energy'', forward_pe = pe, trailing_pe = pe\<rparr>"

definition demo_df :: dataframe where
  "demo_df =
     [demo_row ''AAA'' (Some 5) (Some 10) (Some 30),
      demo_row ''BBB'' (Some 12) (Some 25) None,
      demo_row ''CCC'' None (Some 40) (Some 8),
      demo_row ''DDD'' (Some 20) None (Some 15)]"

section \<open>The scrapers on an unusable page\<close>

lemma col_tolist_absent: "col \<notin> set (columns df) \<Longrightarrow> col_tolist df col = Inl KeyError"
  by (simp add: col_tolist_def columns_def map_of_eq_None_iff[THEN iffD2])

lemma not_recognizable_iff:
  "\<not> recognizable df \<longleftrightarrow>
     ''Ticker'' \<notin> set (columns df) \<and> ''Symbol'' \<notin> set (columns df) \<and>
     ''Ticker symbol'' \<notin> set (columns df)"
  by (simp add: recognizable_def possible_names_def)

lemma find_target_none:
  "list_all (\<lambda>df. \<not> recognizable df) tables \<Longrightarrow> find_target tables = None"
  by (induction tables) (simp_all add: not_recognizable_iff)

lemma find_col_name_none: "\<not> recognizable df \<Longrightarrow> find_col_name df = None"
  by (simp add: find_col_name_def possible_names_def not_recognizable_iff)

lemma sp500_unusable: "page_unusable w sp500_url \<Longrightarrow> get_sp500_tickers w = []"
  by (auto simp: page_unusable_def get_sp500_tickers_def sp500_body_def or_empty_def py_index_def
      col_tolist_absent not_recognizable_iff list_all_iff
      split: sum.splits)

lemma nasdaq_unusable: "page_unusable w nasdaq100_url \<Longrightarrow> get_nasdaq100_tickers w = []"
  by (auto simp: page_unusable_def get_nasdaq100_tickers_def nasdaq100_body_def or_empty_def
      find_target_none split: sum.splits)

lemma russell_unusable: "page_unusable w russell1000_url \<Longrightarrow> get_russell1000_tickers w = []"
  by (auto simp: page_unusable_def get_russell1000_tickers_def russell1000_body_def or_empty_def
      find_target_none split: sum.splits)

lemma tsx_pick_unusable:
  "list_all (\<lambda>df. \<not> recognizable df) tables \<Longrightarrow> or_empty (tsx_pick tables) = []"
  by (auto simp: tsx_pick_def or_empty_def py_index_def find_col_name_none list_all_iff
      split: sum.splits option.splits)

lemma tsx_unusable: "page_unusable w tsx_url \<Longrightarrow> get_tsx_composite_tickers w = []"
proof (cases "fetch_tables w tsx_url")
  case (Inl e)
  then show ?thesis
    by (simp add: get_tsx_composite_tickers_def tsx_body_def or_empty_def)
next
  case (Inr tables)
  assume "page_unusable w tsx_url"
  with Inr have "list_all (\<lambda>df. \<not> recognizable df) tables"
    by (simp add: page_unusable_def)
  then have "or_empty (tsx_pick tables) = []"
    by (rule tsx_pick_unusable)
  with Inr show ?thesis
    by (simp add: get_tsx_composite_tickers_def tsx_body_def)
qed

lemma page_unusable_down: "page_unusable web_down url"
  by (simp add: page_unusable_def fetch_tables_def web_down_def)

lemma page_unusable_nocol: "page_unusable web_nocol url"
  by (simp add: page_unusable_def fetch_tables_def web_nocol_def recognizable_def
      possible_names_def columns_def)

text \<open>
  Claim C8. Each of the four scrapers returns the empty list, and raises
  nothing, whenever its page is unusable: the request raises, the parse
  raises, or no table of the page has a column named Ticker, Symbol or
  Ticker symbol.
\<close>

theorem scrapers_empty_when_unusable:
  "(page_unusable w sp500_url \<longrightarrow> get_sp500_tickers w = []) \<and>
   (page_unusable w nasdaq100_url \<longrightarrow> get_nasdaq100_tickers w = []) \<and>
   (page_unusable w russell1000_url \<longrightarrow> get_russell1000_tickers w = []) \<and>
   (page_unusable w tsx_url \<longrightarrow> get_tsx_composite_tickers w = [])"
  using sp500_unusable nasdaq_unusable russell_unusable tsx_unusable by blast

text \<open>
  Witness for C8: a web where every request raises, and a web whose pages
  parse to one table without a symbol column.
\<close>

theorem scrapers_empty_when_unusable_witness:
  "page_unusable web_down sp500_url \<and> get_sp500_tickers web_down = [] \<and>
   page_unusable web_down tsx_url \<and> get_tsx_composite_tickers web_down = [] \<and>
   page_unusable web_nocol nasdaq100_url \<and> get_nasdaq100_tickers web_nocol = [] \<and>
   page_unusable web_nocol russell1000_url \<and> get_russell1000_tickers web_nocol = []"
  using scrapers_empty_when_unusable[of web_down] scrapers_empty_when_unusable[of web_nocol]
    page_unusable_down page_unusable_nocol
  by simp

text \<open>
  Claim C10. The claim is that the guard \<open>len(tables) < 3\<close> makes \<open>tables[3]\<close>
  safe. On a page with exactly three tables the guard does not fire and the
  access raises IndexError, which the handler of the scraper then turns into
  the empty list: the guard is one short of the index it protects.
\<close>

theorem tsx_guard_off_by_one:
  "length three_tables = 3 \<and> \<not> tsx_guard_fires three_tables \<and>
   py_index three_tables 3 = Inl IndexError \<and>
   tsx_body web_three = Inl IndexError \<and>
   get_tsx_composite_tickers web_three = []"
  by (simp add: tsx_guard_fires_def three_tables_def py_index_def tsx_body_def web_three_def
      fetch_tables_def tsx_pick_def get_tsx_composite_tickers_def or_empty_def)

section \<open>The retrieval loop\<close>

lemma attempt_data:
  "data_list (attempt src c s) =
     data_list s @ (case try_body src c of Inr (Some row) \<Rightarrow> [row] | _ \<Rightarrow> [])"
  by (simp add: attempt_def split: sum.splits option.splits)

lemma attempt_queried: "queried (attempt src c s) = queried s @ [c]"
  by (simp add: attempt_def split: sum.splits option.splits)

lemma attempt_success: "\<not> success s \<Longrightarrow> success (attempt src c s) = attempt_ok src c"
  by (simp add: attempt_def attempt_ok_def split: sum.splits option.splits)

lemma attempts_loop_done: "success s \<Longrightarrow> attempts_loop src cs s = s"
  by (cases cs) simp_all

lemma attempts_loop_data:
  "\<not> success s \<Longrightarrow> data_list (attempts_loop src cs s) = data_list s @ found_rows src cs"
proof (induction cs arbitrary: s)
  case Nil
  then show ?case by simp
next
  case (Cons c cs)
  show ?case
  proof (cases "attempt_ok src c")
    case True
    with Cons.prems have "success (attempt src c s)" by (simp add: attempt_success)
    then have "attempts_loop src cs (attempt src c s) = attempt src c s"
      by (rule attempts_loop_done)
    with Cons.prems True show ?thesis
      by (simp add: attempt_data attempt_ok_def split: sum.splits option.splits)
  next
    case False
    with Cons.prems have "\<not> success (attempt src c s)" by (simp add: attempt_success)
    from Cons.IH[OF this] Cons.prems False show ?thesis
      by (simp add: attempt_data attempt_ok_def split: sum.splits option.splits)
  qed
qed

lemma attempts_loop_queried:
  "\<not> success s \<Longrightarrow> queried (attempts_loop src cs s) = queried s @ tried src cs"
proof (induction cs arbitrary: s)
  case Nil
  then show ?case by simp
next
  case (Cons c cs)
  show ?case
  proof (cases "attempt_ok src c")
    case True
    with Cons.prems have "success (attempt src c s)" by (simp add: attempt_success)
    then have "attempts_loop src cs (attempt src c s) = attempt src c s"
      by (rule attempts_loop_done)
    with Cons.prems True show ?thesis
      by (simp add: attempt_queried)
  next
    case False
    with Cons.prems have "\<not> success (attempt src c s)" by (simp add: attempt_success)
    from Cons.IH[OF this] Cons.prems False show ?thesis
      by (simp add: attempt_queried)
  qed
qed

lemma process_ticker_data:
  "data_list (process_ticker src t s) = data_list s @ found_rows src (attempts t)"
  by (simp add: process_ticker_def attempts_loop_data)

lemma process_ticker_queried:
  "queried (process_ticker src t s) = queried s @ tried src (attempts t)"
  by (simp add: process_ticker_def attempts_loop_queried)

lemma tickers_loop_data:
  "data_list (tickers_loop src ts s) =
     data_list s @ concat (map (\<lambda>t. found_rows src (attempts t)) ts)"
  by (induction ts arbitrary: s) (simp_all add: process_ticker_data)

lemma tickers_loop_queried:
  "queried (tickers_loop src ts s) =
     queried s @ concat (map (\<lambda>t. tried src (attempts t)) ts)"
  by (induction ts arbitrary: s) (simp_all add: process_ticker_queried)

lemma rows_for_eq: "rows_for src t = found_rows src (attempts t)"
  by (simp add: rows_for_def process_ticker_data init_state_def)

lemma calls_for_eq: "calls_for src t = tried src (attempts t)"
  by (simp add: calls_for_def process_ticker_queried init_state_def)

lemma fetch_concat: "fetch_analyst_data src ts = concat (map (rows_for src) ts)"
proof -
  have "rows_for src = (\<lambda>t. found_rows src (attempts t))"
    by (rule ext) (rule rows_for_eq)
  then show ?thesis
    by (simp add: fetch_analyst_data_def tickers_loop_data init_state_def)
qed

lemma remote_calls_concat: "remote_calls src ts = concat (map (calls_for src) ts)"
proof -
  have "calls_for src = (\<lambda>t. tried src (attempts t))"
    by (rule ext) (rule calls_for_eq)
  then show ?thesis
    by (simp add: remote_calls_def tickers_loop_queried init_state_def)
qed

lemma found_rows_length:
  "length (found_rows src cs) = (if list_ex (attempt_ok src) cs then 1 else 0)"
proof (induction cs)
  case Nil
  then show ?case by simp
next
  case (Cons c cs)
  show ?case
  proof (cases "attempt_ok src c")
    case True
    then obtain row where "try_body src c = Inr (Some row)"
      by (auto simp: attempt_ok_def split: sum.splits option.splits)
    with True show ?thesis by simp
  next
    case False
    then have "found_rows src (c # cs) = found_rows src cs"
      by (auto simp: attempt_ok_def split: sum.splits option.splits)
    with Cons False show ?thesis by simp
  qed
qed

lemma found_rows_mem:
  "r \<in> set (found_rows src cs) \<Longrightarrow> \<exists>c \<in> set cs. try_body src c = Inr (Some r)"
  by (induction cs) (auto split: sum.splits option.splits)

lemma calls_for_cases:
  "calls_for src t =
     (if endswith t ''.TO'' \<and> \<not> attempt_ok src t then [t, replace_str ''.TO'' ''.NE'' t] else [t])"
  by (simp add: calls_for_eq attempts_def)

lemma fetch_mem:
  assumes "r \<in> set (fetch_analyst_data src ts)"
  shows "\<exists>t \<in> set ts. \<exists>c \<in> set (attempts t). try_body src c = Inr (Some r)"
proof -
  from assms obtain t where t: "t \<in> set ts" and "r \<in> set (rows_for src t)"
    by (auto simp: fetch_concat)
  then have "r \<in> set (found_rows src (attempts t))" by (simp add: rows_for_eq)
  then have "\<exists>c \<in> set (attempts t). try_body src c = Inr (Some r)" by (rule found_rows_mem)
  with t show ?thesis by blast
qed

section \<open>Rounding to a float\<close>

lemma round_half_even_error: "\<bar>of_int (round_half_even y) - y\<bar> \<le> 1 / 2"
proof -
  have "of_int \<lfloor>y\<rfloor> \<le> y" "y < of_int \<lfloor>y\<rfloor> + 1" by linarith+
  then show ?thesis
    by (auto simp: round_half_even_def Let_def)
qed

lemma round_half_even_of_int: "round_half_even (of_int n) = n"
  by (simp add: round_half_even_def)

lemma bitlen_bounds: "0 < a \<Longrightarrow> 2 ^ (bitlen a - 1) \<le> a \<and> a < 2 ^ bitlen a"
proof (induction a rule: bitlen.induct)
  case (1 a)
  show ?case
  proof (cases "a div 2 = 0")
    case True
    with 1 have "a = 1" by linarith
    then show ?thesis
      by (simp add: bitlen.simps[of 1] bitlen.simps[of 0])
  next
    case False
    with 1 have pos: "0 < a div 2" by linarith
    with 1 have ih: "2 ^ (bitlen (a div 2) - 1) \<le> a div 2" "a div 2 < 2 ^ bitlen (a div 2)"
      by simp_all
    have bl: "bitlen a = Suc (bitlen (a div 2))"
      using 1 by (subst bitlen.simps) simp
    have pb: "0 < bitlen (a div 2)"
      using pos by (subst bitlen.simps) simp
    then have "(2::int) ^ bitlen (a div 2) = 2 * 2 ^ (bitlen (a div 2) - 1)"
      by (cases "bitlen (a div 2)") simp_all
    with ih have "2 ^ bitlen (a div 2) \<le> a" "a < 2 * 2 ^ bitlen (a div 2)"
      by linarith+
    with bl show ?thesis by simp
  qed
qed

lemma ilog2_bounds:
  assumes "x \<noteq> 0"
  shows "2 powi (ilog2 x) \<le> \<bar>x\<bar> \<and> \<bar>x\<bar> < 2 powi (ilog2 x + 1)"
proof -
  obtain a b where q: "quotient_of \<bar>x\<bar> = (a, b)" by (cases "quotient_of \<bar>x\<bar>")
  then have b: "0 < b" by (rule quotient_of_denom_pos)
  from q have x: "\<bar>x\<bar> = of_int a / of_int b" by (rule quotient_of_div)
  from assms have "0 < \<bar>x\<bar>" by simp
  with x b have a: "0 < a" by (simp add: zero_less_divide_iff)
  let ?la = "bitlen a" and ?lb = "bitlen b"
  let ?k = "int ?la - int ?lb"
  from bitlen_bounds[OF a] have a1: "(2::rat) ^ (?la - 1) \<le> of_int a" and a2: "(of_int a :: rat) < 2 ^ ?la"
    by (metis of_int_le_iff of_int_numeral of_int_power, metis of_int_less_iff of_int_numeral of_int_power)
  from bitlen_bounds[OF b] have b1: "(2::rat) ^ (?lb - 1) \<le> of_int b" and b2: "(of_int b :: rat) < 2 ^ ?lb"
    by (metis of_int_le_iff of_int_numeral of_int_power, metis of_int_less_iff of_int_numeral of_int_power)
  have la: "0 < ?la" using a by (subst bitlen.simps) simp
  have lb: "0 < ?lb" using b by (subst bitlen.simps) simp
  have bpos: "(0::rat) < of_int b" using b by simp
  have apos: "(0::rat) < of_int a" using a by simp
  have up: "\<bar>x\<bar> < 2 powi (?k + 1)"
  proof -
    have "\<bar>x\<bar> * 2 ^ (?lb - 1) \<le> \<bar>x\<bar> * of_int b"
      using b1 by (intro mult_left_mono) simp_all
    also have "\<dots> = of_int a" using x bpos by simp
    also have "\<dots> < 2 ^ ?la" by (rule a2)
    finally have "\<bar>x\<bar> < 2 ^ ?la / 2 ^ (?lb - 1)"
      by (simp add: pos_less_divide_eq)
    also have "\<dots> = 2 powi int ?la / 2 powi int (?lb - 1)"
      by (simp only: power_int_of_nat)
    also have "\<dots> = 2 powi (int ?la - int (?lb - 1))"
      by (rule power_int_diff[symmetric]) simp
    also have "int ?la - int (?lb - 1) = ?k + 1" using lb by simp
    finally show ?thesis .
  qed
  have low: "2 powi (?k - 1) < \<bar>x\<bar>"
  proof -
    have "2 powi (?k - 1) = (2::rat) ^ (?la - 1) / 2 ^ ?lb"
    proof -
      have "?k - 1 = int (?la - 1) - int ?lb" using la by simp
      then have "2 powi (?k - 1) = (2::rat) powi (int (?la - 1) - int ?lb)" by (rule arg_cong)
      also have "\<dots> = 2 powi int (?la - 1) / 2 powi int ?lb"
        by (rule power_int_diff) simp
      finally show ?thesis by (simp only: power_int_of_nat)
    qed
    also have "\<dots> \<le> of_int a / 2 ^ ?lb"
      using a1 by (simp add: divide_right_mono)
    also have "\<dots> < of_int a / of_int b"
      using b2 apos bpos by (simp add: divide_strict_left_mono)
    finally show ?thesis using x by simp
  qed
  show ?thesis
  proof (cases "2 powi ?k \<le> \<bar>x\<bar>")
    case True
    then have "ilog2 x = ?k" by (simp add: ilog2_def q)
    with True up show ?thesis by simp
  next
    case False
    then have "ilog2 x = ?k - 1" by (simp add: ilog2_def q)
    with False low show ?thesis by simp
  qed
qed


lemma ilog2_less:
  assumes "x \<noteq> 0" and "\<bar>x\<bar> < 2 powi n"
  shows "ilog2 x < n"
proof (rule ccontr)
  assume "\<not> ilog2 x < n"
  then have "n \<le> ilog2 x" by simp
  then have "(2::rat) powi n \<le> 2 powi ilog2 x" by (rule power_int_increasing) simp
  with ilog2_bounds[OF assms(1)] assms(2) show False by simp
qed

lemma ilog2_ge:
  assumes "x \<noteq> 0" and "2 powi n \<le> \<bar>x\<bar>"
  shows "n \<le> ilog2 x"
proof (rule ccontr)
  assume "\<not> n \<le> ilog2 x"
  then have "ilog2 x + 1 \<le> n" by simp
  then have "(2::rat) powi (ilog2 x + 1) \<le> 2 powi n" by (rule power_int_increasing) simp
  with ilog2_bounds[OF assms(1)] assms(2) show False by simp
qed

text \<open>The error of one rounding below the overflow threshold.\<close>

lemma fl_error:
  assumes "\<bar>x\<bar> < 2 ^ 1023"
  shows "\<exists>y. fl x = Finite y \<and> \<bar>y - x\<bar> \<le> \<bar>x\<bar> / 2 ^ 53 + 2 powi (- 1075)"
proof (cases "x = 0")
  case True
  then show ?thesis by (simp add: fl_def)
next
  case False
  define e where "e = max (ilog2 x) (- 1022)"
  define q :: rat where "q = 2 powi (e - 52)"
  define m where "m = round_half_even (x / q)"
  have "\<bar>x\<bar> < 2 powi 1023" using assms by simp
  with False have "ilog2 x < 1023" by (rule ilog2_less)
  then have e: "e \<le> 1022" by (simp add: e_def)
  have qpos: "0 < q" by (simp add: q_def)
  have fl: "fl x = Finite (of_int m * q)"
    using False e by (simp add: fl_def Let_def e_def[symmetric] q_def[symmetric] m_def[symmetric])
  have "\<bar>of_int m - x / q\<bar> \<le> 1 / 2" unfolding m_def by (rule round_half_even_error)
  then have "\<bar>of_int m - x / q\<bar> * q \<le> 1 / 2 * q"
    using qpos by (intro mult_right_mono) simp_all
  moreover have "\<bar>of_int m - x / q\<bar> * q = \<bar>of_int m * q - x\<bar>"
  proof -
    have "\<bar>of_int m - x / q\<bar> * q = \<bar>(of_int m - x / q) * q\<bar>"
      using qpos by (simp add: abs_mult)
    also have "(of_int m - x / q) * q = of_int m * q - x"
      using qpos by (simp add: field_simps)
    finally show ?thesis .
  qed
  ultimately have err: "\<bar>of_int m * q - x\<bar> \<le> q / 2" by simp
  have half: "q / 2 = 2 powi (e - 53)"
  proof -
    have "(2::rat) powi (e - 53) = 2 powi ((e - 52) - 1)" by simp
    also have "\<dots> = 2 powi (e - 52) / 2 powi 1" by (rule power_int_diff) simp
    finally show ?thesis by (simp add: q_def)
  qed
  have "q / 2 \<le> \<bar>x\<bar> / 2 ^ 53 + 2 powi (- 1075)"
  proof (cases "- 1022 \<le> ilog2 x")
    case True
    then have "e = ilog2 x" by (simp add: e_def)
    then have "q / 2 = 2 powi (ilog2 x - 53)" using half by simp
    also have "\<dots> = 2 powi ilog2 x / 2 powi 53" by (rule power_int_diff) simp
    also have "\<dots> \<le> \<bar>x\<bar> / 2 powi 53"
      using ilog2_bounds[OF False] by (intro divide_right_mono) simp_all
    finally have "q / 2 \<le> \<bar>x\<bar> / 2 ^ 53" by simp
    moreover have "(0::rat) \<le> 2 powi (- 1075)" by simp
    ultimately show ?thesis by linarith
  next
    case False
    then have "e = - 1022" by (simp add: e_def)
    then have "q / 2 = 2 powi (- 1075)" using half by simp
    moreover have "0 \<le> \<bar>x\<bar> / 2 ^ 53" by simp
    ultimately show ?thesis by linarith
  qed
  with err fl show ?thesis by auto
qed

text \<open>An integer of at most 53 bits is a float.\<close>

lemma fl_of_int:
  assumes "\<bar>i\<bar> \<le> 2 ^ 53"
  shows "fl (of_int i) = Finite (of_int i)"
proof (cases "i = 0")
  case True
  then show ?thesis by (simp add: fl_def)
next
  case False
  define x :: rat where "x = of_int i"
  have x0: "x \<noteq> 0" using False by (simp add: x_def)
  have ax: "\<bar>x\<bar> = of_int \<bar>i\<bar>" by (simp add: x_def)
  have "1 \<le> \<bar>i\<bar>" using False by simp
  then have "(1::rat) \<le> of_int \<bar>i\<bar>" by (metis of_int_1 of_int_le_iff)
  then have "2 powi 0 \<le> \<bar>x\<bar>" using ax by simp
  with x0 have lo: "0 \<le> ilog2 x" by (rule ilog2_ge)
  have "(of_int \<bar>i\<bar> :: rat) \<le> 2 ^ 53" using assms by (metis of_int_le_iff of_int_numeral of_int_power)
  then have le53: "\<bar>x\<bar> \<le> 2 ^ 53" using ax by simp
  then have "\<bar>x\<bar> < 2 powi 54"
  proof -
    have "(2::rat) ^ 53 < 2 ^ 54" by simp
    with le53 show ?thesis by simp
  qed
  with x0 have hi: "ilog2 x < 54" by (rule ilog2_less)
  define e where "e = ilog2 x"
  define q :: rat where "q = 2 powi (e - 52)"
  have emax: "max (ilog2 x) (- 1022) = e" using lo by (simp add: e_def)
  have qpos: "0 < q" by (simp add: q_def)
  have "\<exists>n::int. x / q = of_int n"
  proof (cases "e \<le> 52")
    case True
    then have "q = 2 powi (- int (nat (52 - e)))" by (simp add: q_def)
    then have "q = 1 / 2 ^ nat (52 - e)" by (simp only: power_int_minus_divide power_int_of_nat)
    then have "x / q = of_int (i * 2 ^ nat (52 - e))" by (simp add: x_def)
    then show ?thesis by blast
  next
    case False
    with hi have e53: "e = 53" by (simp add: e_def)
    then have "(2::rat) powi 53 \<le> \<bar>x\<bar>" using ilog2_bounds[OF x0] by (simp add: e_def)
    with le53 have "\<bar>x\<bar> = 2 ^ 53" by simp
    then have "of_int \<bar>i\<bar> = (2::rat) ^ 53" using ax by simp
    then have "\<bar>i\<bar> = 2 ^ 53" by (metis of_int_eq_iff of_int_numeral of_int_power)
    then have "i = 2 * 2 ^ 52 \<or> i = 2 * (- (2 ^ 52))" by (auto simp: abs_if split: if_splits)
    moreover have "q = 2" using e53 by (simp add: q_def)
    ultimately have "x / q = of_int (2 ^ 52) \<or> x / q = of_int (- (2 ^ 52))"
      by (auto simp: x_def)
    then show ?thesis by blast
  qed
  then obtain n :: int where n: "x / q = of_int n" by blast
  then have m: "round_half_even (x / q) = n" by (simp add: round_half_even_of_int)
  from n qpos have "of_int n * q = x" by (simp add: field_simps)
  moreover have "\<not> (1024 \<le> e \<or> (e = 1023 \<and> \<bar>n\<bar> = 2 ^ 53))" using hi by (simp add: e_def)
  ultimately have "fl x = Finite x"
    using x0 by (simp add: fl_def Let_def emax q_def[symmetric] m)
  then show ?thesis by (simp add: x_def)
qed


lemma tiny_le: "(2::rat) powi (- 1075) \<le> 1 / 2 ^ 200"
proof -
  have "(2::rat) powi (- 1075) \<le> 2 powi (- 200)" by (rule power_int_increasing) simp_all
  also have "\<dots> = 1 / 2 ^ 200" by (simp add: power_int_minus_divide)
  finally show ?thesis .
qed

lemma abs5: "\<bar>a + b + c + d + e\<bar> \<le> \<bar>a\<bar> + \<bar>b\<bar> + \<bar>c\<bar> + \<bar>d\<bar> + \<bar>e\<bar>" for a :: rat
  by linarith

lemma upside_core:
  fixes p t d :: rat
  assumes p1: "1 / 2 ^ 64 \<le> \<bar>p\<bar>" and p2: "\<bar>p\<bar> \<le> 2 ^ 53" and t2: "\<bar>t\<bar> \<le> 2 ^ 53"
    and d: "\<bar>d - (t - p)\<bar> \<le> \<bar>t - p\<bar> / 2 ^ 53 + 2 powi (- 1075)"
  shows "\<exists>q u s. fl (d / p) = Finite q \<and> fl (q * 100) = Finite u \<and>
           fl (of_int (round_half_even (u * 100)) / 100) = Finite s \<and>
           \<bar>s - 100 * ((t - p) / p)\<bar> \<le> 1 / 200 + (\<bar>100 * ((t - p) / p)\<bar> + 1) / 2 ^ 50"
proof -
  define h :: rat where "h = 2 powi (- 1075)"
  define X where "X = (t - p) / p"
  define D where "D = d / p"
  define A where "A = \<bar>X\<bar>"
  have h0: "0 \<le> h" by (simp add: h_def)
  have h1: "h \<le> 1 / 2 ^ 200" unfolding h_def by (rule tiny_le)
  have "(0::rat) < 1 / 2 ^ 64" by simp
  then have ppos: "0 < \<bar>p\<bar>" using p1 by (rule less_le_trans)
  have inv: "1 / \<bar>p\<bar> \<le> 2 ^ 64"
  proof -
    have "1 \<le> \<bar>p\<bar> * 2 ^ 64" using p1 by (simp add: field_simps)
    then show ?thesis using ppos by (simp add: field_simps)
  qed
  have "\<bar>t - p\<bar> \<le> \<bar>t\<bar> + \<bar>p\<bar>" by (rule abs_triangle_ineq4)
  then have x0: "\<bar>t - p\<bar> \<le> 2 ^ 54" using p2 t2 by simp
  have A0: "0 \<le> A" by (simp add: A_def)
  have Adef: "A = \<bar>t - p\<bar> * (1 / \<bar>p\<bar>)" by (simp add: A_def X_def abs_divide)
  have "\<bar>t - p\<bar> * (1 / \<bar>p\<bar>) \<le> 2 ^ 54 * 2 ^ 64"
    using x0 inv by (intro mult_mono) simp_all
  then have A1: "A \<le> 2 ^ 118" using Adef by simp
  have hp: "h * (1 / \<bar>p\<bar>) \<le> h * 2 ^ 64"
    using inv h0 by (intro mult_left_mono) simp_all
  define e1 where "e1 = \<bar>D - X\<bar>"
  define aD where "aD = \<bar>D\<bar>"
  have "e1 = \<bar>d - (t - p)\<bar> * (1 / \<bar>p\<bar>)"
  proof -
    have "D - X = (d - (t - p)) / p" by (simp add: D_def X_def diff_divide_distrib)
    then show ?thesis by (simp add: abs_divide e1_def)
  qed
  also have "\<dots> \<le> (\<bar>t - p\<bar> / 2 ^ 53 + h) * (1 / \<bar>p\<bar>)"
    using d ppos unfolding h_def by (intro mult_right_mono) simp_all
  also have "\<dots> = A / 2 ^ 53 + h * (1 / \<bar>p\<bar>)"
    by (simp add: Adef algebra_simps)
  finally have e1: "e1 \<le> A / 2 ^ 53 + h * 2 ^ 64" using hp by linarith
  have tD: "aD \<le> A + e1" unfolding aD_def A_def e1_def by linarith
  have "aD \<le> 2 ^ 120" using tD e1 A1 h1 by simp
  moreover have "(2::rat) ^ 120 < 2 ^ 1023" by simp
  ultimately have "\<bar>D\<bar> < 2 ^ 1023" unfolding aD_def by (rule le_less_trans)
  from fl_error[OF this] obtain q where q: "fl D = Finite q"
    and eq0: "\<bar>q - D\<bar> \<le> \<bar>D\<bar> / 2 ^ 53 + h" unfolding h_def by blast
  define e2 where "e2 = \<bar>q - D\<bar>"
  define aq where "aq = \<bar>q\<bar>"
  have eq: "e2 \<le> aD / 2 ^ 53 + h" using eq0 by (simp add: e2_def aD_def)
  have tq: "aq \<le> aD + e2" unfolding aD_def aq_def e2_def by linarith
  have q100: "\<bar>q * 100\<bar> = 100 * aq" by (simp add: aq_def abs_mult)
  have "100 * aq \<le> 2 ^ 130" using tq eq tD e1 A1 h1 by simp
  moreover have "(2::rat) ^ 130 < 2 ^ 1023" by simp
  ultimately have "\<bar>q * 100\<bar> < 2 ^ 1023" unfolding q100 by (rule le_less_trans)
  from fl_error[OF this] obtain u where u: "fl (q * 100) = Finite u"
    and eu0: "\<bar>u - q * 100\<bar> \<le> \<bar>q * 100\<bar> / 2 ^ 53 + h" unfolding h_def by blast
  define e3 where "e3 = \<bar>u - q * 100\<bar>"
  define au where "au = \<bar>u\<bar>"
  have eu: "e3 \<le> 100 * aq / 2 ^ 53 + h" using eu0 by (simp add: e3_def q100)
  have tu: "au \<le> 100 * aq + e3" unfolding au_def e3_def q100[symmetric] by linarith
  define k where "k = round_half_even (u * 100)"
  define K :: rat where "K = of_int k / 100"
  define e4 where "e4 = \<bar>K - u\<bar>"
  define aK where "aK = \<bar>K\<bar>"
  have "\<bar>of_int k - u * 100\<bar> \<le> 1 / 2" unfolding k_def by (rule round_half_even_error)
  moreover have "\<bar>of_int k - u * 100\<bar> = 100 * \<bar>K - u\<bar>"
  proof -
    have "of_int k - u * 100 = 100 * (K - u)" by (simp add: K_def)
    then have "\<bar>of_int k - u * 100\<bar> = \<bar>100 * (K - u)\<bar>" by (rule arg_cong)
    also have "\<dots> = 100 * \<bar>K - u\<bar>" by (simp only: abs_mult abs_numeral)
    finally show ?thesis .
  qed
  ultimately have ek: "e4 \<le> 1 / 200" by (simp add: e4_def)
  have tK: "aK \<le> au + e4" unfolding aK_def au_def e4_def by linarith
  have "aK \<le> 2 ^ 140" using tK ek tu eu tq eq tD e1 A1 h1 by simp
  moreover have "(2::rat) ^ 140 < 2 ^ 1023" by simp
  ultimately have "\<bar>K\<bar> < 2 ^ 1023" unfolding aK_def by (rule le_less_trans)
  from fl_error[OF this] obtain s where s: "fl K = Finite s"
    and es0: "\<bar>s - K\<bar> \<le> \<bar>K\<bar> / 2 ^ 53 + h" unfolding h_def by blast
  define e5 where "e5 = \<bar>s - K\<bar>"
  have es: "e5 \<le> aK / 2 ^ 53 + h" using es0 by (simp add: e5_def aK_def)
  have "s - 100 * X = (s - K) + (K - u) + (u - q * 100) + 100 * (q - D) + 100 * (D - X)"
    by simp
  then have "\<bar>s - 100 * X\<bar> \<le> \<bar>s - K\<bar> + \<bar>K - u\<bar> + \<bar>u - q * 100\<bar> + \<bar>100 * (q - D)\<bar> + \<bar>100 * (D - X)\<bar>"
    by (simp only: abs5)
  then have fin: "\<bar>s - 100 * X\<bar> \<le> e5 + e4 + e3 + 100 * e2 + 100 * e1"
    by (simp only: e5_def e4_def e3_def e2_def e1_def abs_mult abs_numeral)
  have "e5 + e4 + e3 + 100 * e2 + 100 * e1 \<le> 1 / 200 + (100 * A + 1) / 2 ^ 50"
    using es ek eu eq e1 tK tu tq tD A0 h0 h1 by (simp add: add_divide_distrib)
  with fin have "\<bar>s - 100 * X\<bar> \<le> 1 / 200 + (100 * A + 1) / 2 ^ 50"
    by (rule order_trans)
  moreover have "100 * A = \<bar>100 * X\<bar>" by (simp only: A_def abs_mult abs_numeral)
  ultimately have "\<bar>s - 100 * X\<bar> \<le> 1 / 200 + (\<bar>100 * X\<bar> + 1) / 2 ^ 50"
    by (simp only:)
  with q u s show ?thesis
    unfolding D_def X_def K_def k_def by blast
qed

lemma to_float_exact: "\<bar>i\<bar> \<le> 2 ^ 53 \<Longrightarrow> to_float i = Inr (Finite (of_int i))"
  by (simp add: to_float_def fl_of_int)

lemma fl_sub_error:
  fixes t p :: rat
  assumes "\<bar>p\<bar> \<le> 2 ^ 53" and "\<bar>t\<bar> \<le> 2 ^ 53"
  shows "\<exists>d. fl (t - p) = Finite d \<and> \<bar>d - (t - p)\<bar> \<le> \<bar>t - p\<bar> / 2 ^ 53 + 2 powi (- 1075)"
proof -
  have "\<bar>t - p\<bar> \<le> \<bar>t\<bar> + \<bar>p\<bar>" by (rule abs_triangle_ineq4)
  then have "\<bar>t - p\<bar> \<le> 2 ^ 54" using assms by simp
  moreover have "(2::rat) ^ 54 < 2 ^ 1023" by simp
  ultimately have "\<bar>t - p\<bar> < 2 ^ 1023" by (rule le_less_trans)
  then show ?thesis by (rule fl_error)
qed

lemma rat_int_le: "\<bar>(of_int i :: rat)\<bar> \<le> 2 ^ 53 \<Longrightarrow> \<bar>i\<bar> \<le> 2 ^ 53"
proof -
  assume "\<bar>(of_int i :: rat)\<bar> \<le> 2 ^ 53"
  then have "(of_int \<bar>i\<bar> :: rat) \<le> of_int (2 ^ 53)" by simp
  then show ?thesis by (simp only: of_int_le_iff)
qed

text \<open>
  The difference and the quotient of two in-range numbers: whatever their
  types, the quotient is the rounding of \<open>d / p\<close> for a \<open>d\<close> that is the
  difference up to one rounding.
\<close>

lemma sub_div_num:
  assumes t: "num_of tv = Some t" and p: "num_of cv = Some p"
    and p0: "p \<noteq> 0" and p2: "\<bar>p\<bar> \<le> 2 ^ 53" and t2: "\<bar>t\<bar> \<le> 2 ^ 53"
  shows "\<exists>d. \<bar>d - (t - p)\<bar> \<le> \<bar>t - p\<bar> / 2 ^ 53 + 2 powi (- 1075) \<and>
           (\<forall>q. fl (d / p) = Finite q \<longrightarrow>
              (case py_sub tv cv of Inl e \<Rightarrow> Inl e | Inr dv \<Rightarrow> py_truediv dv cv) = Inr (Finite q))"
proof -
  from fl_sub_error[OF p2 t2] obtain d where
    d: "fl (t - p) = Finite d" and ed: "\<bar>d - (t - p)\<bar> \<le> \<bar>t - p\<bar> / 2 ^ 53 + 2 powi (- 1075)"
    by blast
  consider (int_int) a b where "tv = PInt a" "cv = PInt b"
    | (int_float) a y where "tv = PInt a" "cv = PFloat (Finite y)"
    | (float_int) x b where "tv = PFloat (Finite x)" "cv = PInt b"
    | (float_float) x y where "tv = PFloat (Finite x)" "cv = PFloat (Finite y)"
    using t p by (cases tv rule: num_of.cases; cases cv rule: num_of.cases) simp_all
  then show ?thesis
  proof cases
    case int_int
    with t p have tp: "t = of_int a" "p = of_int b" by simp_all
    with p0 have b0: "b \<noteq> 0" by simp
    have "\<bar>(t - p) - (t - p)\<bar> \<le> \<bar>t - p\<bar> / 2 ^ 53 + 2 powi (- 1075)" by simp
    moreover have "\<forall>q. fl ((t - p) / p) = Finite q \<longrightarrow>
              (case py_sub tv cv of Inl e \<Rightarrow> Inl e | Inr dv \<Rightarrow> py_truediv dv cv) = Inr (Finite q)"
      using int_int tp b0 by (simp add: py_sub_def py_truediv_def)
    ultimately show ?thesis by blast
  next
    case int_float
    with t p have tp: "t = of_int a" "p = y" by simp_all
    from t2 tp have "\<bar>a\<bar> \<le> 2 ^ 53" by (simp add: rat_int_le)
    then have fa: "to_float a = Inr (Finite (of_int a))" by (rule to_float_exact)
    have "\<forall>q. fl (d / p) = Finite q \<longrightarrow>
              (case py_sub tv cv of Inl e \<Rightarrow> Inl e | Inr dv \<Rightarrow> py_truediv dv cv) = Inr (Finite q)"
      using int_float tp fa d p0 by (simp add: py_sub_def py_truediv_def fsub_def float_div_def fdiv_def)
    with ed show ?thesis by blast
  next
    case float_int
    with t p have tp: "t = x" "p = of_int b" by simp_all
    from p2 tp have "\<bar>b\<bar> \<le> 2 ^ 53" by (simp add: rat_int_le)
    then have fb: "to_float b = Inr (Finite (of_int b))" by (rule to_float_exact)
    have "\<forall>q. fl (d / p) = Finite q \<longrightarrow>
              (case py_sub tv cv of Inl e \<Rightarrow> Inl e | Inr dv \<Rightarrow> py_truediv dv cv) = Inr (Finite q)"
      using float_int tp fb d p0 by (simp add: py_sub_def py_truediv_def fsub_def float_div_def fdiv_def)
    with ed show ?thesis by blast
  next
    case float_float
    with t p have tp: "t = x" "p = y" by simp_all
    have "\<forall>q. fl (d / p) = Finite q \<longrightarrow>
              (case py_sub tv cv of Inl e \<Rightarrow> Inl e | Inr dv \<Rightarrow> py_truediv dv cv) = Inr (Finite q)"
      using float_float tp d p0 by (simp add: py_sub_def py_truediv_def fsub_def float_div_def fdiv_def)
    with ed show ?thesis by blast
  qed
qed

lemma upside_accuracy:
  assumes t: "num_of tv = Some t" and p: "num_of cv = Some p"
    and p1: "1 / 2 ^ 64 \<le> \<bar>p\<bar>" and p2: "\<bar>p\<bar> \<le> 2 ^ 53" and t2: "\<bar>t\<bar> \<le> 2 ^ 53"
  shows "\<exists>u s. upside_of tv cv = Inr u \<and> round2 u = Finite s \<and>
           \<bar>s - 100 * ((t - p) / p)\<bar> \<le> 1 / 200 + (\<bar>100 * ((t - p) / p)\<bar> + 1) / 2 ^ 50"
proof -
  have "(0::rat) < 1 / 2 ^ 64" by simp
  then have "0 < \<bar>p\<bar>" using p1 by (rule less_le_trans)
  then have p0: "p \<noteq> 0" by simp
  from sub_div_num[OF t p p0 p2 t2] obtain d where
    ed: "\<bar>d - (t - p)\<bar> \<le> \<bar>t - p\<bar> / 2 ^ 53 + 2 powi (- 1075)" and
    dv: "\<And>q. fl (d / p) = Finite q \<Longrightarrow>
              (case py_sub tv cv of Inl e \<Rightarrow> Inl e | Inr dv \<Rightarrow> py_truediv dv cv) = Inr (Finite q)"
    by blast
  from upside_core[OF p1 p2 t2 ed] obtain q u s where
    q: "fl (d / p) = Finite q" and u: "fl (q * 100) = Finite u" and
    s: "fl (of_int (round_half_even (u * 100)) / 100) = Finite s" and
    b: "\<bar>s - 100 * ((t - p) / p)\<bar> \<le> 1 / 200 + (\<bar>100 * ((t - p) / p)\<bar> + 1) / 2 ^ 50"
    by blast
  have "upside_of tv cv = Inr (Finite u)"
    using dv[OF q] u by (auto simp: upside_of_def fmul_def split: sum.splits)
  moreover have "round2 (Finite u) = Finite s" using s by (simp add: round2_def)
  ultimately show ?thesis using b by blast
qed

subsection \<open>One attempt\<close>

lemma build_row_Inr:
  "build_row c d cp tm dy u cs = Inr r \<Longrightarrow>
     Ticker r = c \<and> Price r = cp \<and> Target_Price r = tm \<and> Upside_Potential r = round2 u \<and>
     Dividend_Yield r = dy \<and>
     Trailing_PE r = dict_get d ''trailingPE'' \<and> Forward_PE r = dict_get d ''forwardPE'' \<and>
     Currency r = dict_get_default d ''currency'' (PStr ''USD'') \<and>
     Num_Analysts r = dict_get_default d ''numberOfAnalystOpinions'' (PInt 0) \<and>
     Rating r = dict_get_default d ''recommendationKey'' (PStr ''N/A'') \<and>
     Sector r = dict_get_default d ''sector'' (PStr ''Unknown'')"
  by (auto simp: build_row_def split: prod.splits sum.splits)

lemma div_yield_eq:
  "(if dict_get_default d ''dividendYield'' (PInt 0) = PNone then PInt 0
    else dict_get_default d ''dividendYield'' (PInt 0)) = div_yield_of d"
  by (simp add: dict_get_default_def div_yield_of_def split: option.splits pyval.splits)

lemma try_body_alt:
  "try_body src c =
     (case info (src c) of
        Inl e \<Rightarrow> Inl e
      | Inr d \<Rightarrow>
          (if truthy (dict_get d ''currentPrice'') \<and> truthy (dict_get d ''targetMeanPrice'')
           then (case upside_of (dict_get d ''targetMeanPrice'') (dict_get d ''currentPrice'') of
                   Inl e \<Rightarrow> Inl e
                 | Inr u \<Rightarrow>
                     (case build_row c d (dict_get d ''currentPrice'') (dict_get d ''targetMeanPrice'')
                             (div_yield_of d) u (rec_counts (src c)) of
                        Inl e \<Rightarrow> Inl e
                      | Inr row \<Rightarrow> Inr (Some row)))
           else Inr None))"
  unfolding try_body_def Let_def div_yield_eq
  by (simp split: sum.splits)

lemma try_body_Some:
  assumes "try_body src c = Inr (Some r)"
  shows "\<exists>d u. info (src c) = Inr d \<and> truthy (dict_get d ''currentPrice'') \<and>
           truthy (dict_get d ''targetMeanPrice'') \<and>
           upside_of (dict_get d ''targetMeanPrice'') (dict_get d ''currentPrice'') = Inr u \<and>
           build_row c d (dict_get d ''currentPrice'') (dict_get d ''targetMeanPrice'')
             (div_yield_of d) u (rec_counts (src c)) = Inr r"
  using assms unfolding try_body_alt
  by (auto split: sum.splits if_splits)

lemma dict_get_truthy: "truthy (dict_get d k) \<Longrightarrow> d k = Some (dict_get d k)"
  by (simp add: dict_get_def split: option.splits)

lemma dict_get_Some: "d k = Some v \<Longrightarrow> dict_get d k = v"
  by (simp add: dict_get_def)

lemma num_truthy: "num_of v = Some x \<Longrightarrow> x \<noteq> 0 \<Longrightarrow> truthy v"
  by (cases v rule: num_of.cases) auto

lemma try_body_upside:
  assumes "try_body src c = Inr (Some r)"
  shows "Ticker r = c \<and> (\<exists>d pv tv u. info (src c) = Inr d \<and> d ''currentPrice'' = Some pv \<and>
           d ''targetMeanPrice'' = Some tv \<and> truthy pv \<and> truthy tv \<and>
           Price r = pv \<and> Target_Price r = tv \<and>
           upside_of tv pv = Inr u \<and> Upside_Potential r = round2 u)"
proof -
  from try_body_Some[OF assms] obtain d u where
    d: "info (src c) = Inr d" and
    tp: "truthy (dict_get d ''currentPrice'')" and
    tt: "truthy (dict_get d ''targetMeanPrice'')" and
    u: "upside_of (dict_get d ''targetMeanPrice'') (dict_get d ''currentPrice'') = Inr u" and
    b: "build_row c d (dict_get d ''currentPrice'') (dict_get d ''targetMeanPrice'')
             (div_yield_of d) u (rec_counts (src c)) = Inr r"
    by blast
  note f = build_row_Inr[OF b]
  from f have "Ticker r = c" by simp
  moreover from f have "Price r = dict_get d ''currentPrice''"
    "Target_Price r = dict_get d ''targetMeanPrice''" "Upside_Potential r = round2 u"
    by simp_all
  moreover note d dict_get_truthy[OF tp] dict_get_truthy[OF tt] tp tt u
  ultimately show ?thesis by blast
qed

lemma try_body_prices:
  assumes d: "info (src c) = Inr d"
    and p: "d ''currentPrice'' = Some pv" and t: "d ''targetMeanPrice'' = Some tv"
    and tr: "truthy pv" "truthy tv" and u: "upside_of tv pv = Inr u"
  shows "case try_body src c of
           Inl e \<Rightarrow> e = ValueError
         | Inr None \<Rightarrow> False
         | Inr (Some r) \<Rightarrow> Upside_Potential r = round2 u"
proof -
  have gp: "dict_get d ''currentPrice'' = pv" and gt: "dict_get d ''targetMeanPrice'' = tv"
    using p t by (simp_all add: dict_get_def)
  have pi: "\<And>x e. py_int x = Inl e \<Longrightarrow> e = ValueError"
    by (auto simp: py_int_def split: rcell.splits)
  show ?thesis
    unfolding try_body_alt
    using d gp gt u tr
    by (auto simp: build_row_def split: sum.splits prod.splits dest: pi)
qed

lemma row_upside_accuracy:
  assumes r: "r \<in> set (fetch_analyst_data src tickers)"
    and p: "num_of (Price r) = Some p" and t: "num_of (Target_Price r) = Some t"
    and b: "1 / 2 ^ 64 \<le> \<bar>p\<bar>" "\<bar>p\<bar> \<le> 2 ^ 53" "\<bar>t\<bar> \<le> 2 ^ 53"
  shows "\<exists>s. Upside_Potential r = Finite s \<and>
           \<bar>s - 100 * ((t - p) / p)\<bar> \<le> 1 / 200 + (\<bar>100 * ((t - p) / p)\<bar> + 1) / 2 ^ 50"
proof -
  from r obtain c where "try_body src c = Inr (Some r)" using fetch_mem by blast
  from try_body_upside[OF this] obtain u where
    u: "upside_of (Target_Price r) (Price r) = Inr u" and s: "Upside_Potential r = round2 u"
    by blast
  from upside_accuracy[OF t p b] u s show ?thesis by auto
qed

lemma symbol_upside_accuracy:
  assumes d: "info (src c) = Inr d"
    and pv: "d ''currentPrice'' = Some pv" and tv: "d ''targetMeanPrice'' = Some tv"
    and p: "num_of pv = Some p" and t: "num_of tv = Some t" and t0: "t \<noteq> 0"
    and b: "1 / 2 ^ 64 \<le> \<bar>p\<bar>" "\<bar>p\<bar> \<le> 2 ^ 53" "\<bar>t\<bar> \<le> 2 ^ 53"
  shows "case try_body src c of
           Inl e \<Rightarrow> e = ValueError
         | Inr None \<Rightarrow> False
         | Inr (Some r) \<Rightarrow>
             (\<exists>s. Upside_Potential r = Finite s \<and>
                \<bar>s - 100 * ((t - p) / p)\<bar> \<le> 1 / 200 + (\<bar>100 * ((t - p) / p)\<bar> + 1) / 2 ^ 50)"
proof -
  have "(0::rat) < 1 / 2 ^ 64" by simp
  then have "0 < \<bar>p\<bar>" using b(1) by (rule less_le_trans)
  then have "p \<noteq> 0" by simp
  with p have tp: "truthy pv" by (rule num_truthy)
  from t t0 have tt: "truthy tv" by (rule num_truthy)
  from upside_accuracy[OF t p b] obtain u s where
    u: "upside_of tv pv = Inr u" and s: "round2 u = Finite s" and
    e: "\<bar>s - 100 * ((t - p) / p)\<bar> \<le> 1 / 200 + (\<bar>100 * ((t - p) / p)\<bar> + 1) / 2 ^ 50"
    by blast
  from try_body_prices[of src c d pv tv u] d pv tv tp tt u
  have "case try_body src c of
           Inl e \<Rightarrow> e = ValueError
         | Inr None \<Rightarrow> False
         | Inr (Some r) \<Rightarrow> Upside_Potential r = round2 u"
    by blast
  with s e show ?thesis
    by (auto split: sum.splits option.splits)
qed

text \<open>
  Claim C1. Every row of the returned dataframe holds, as its upside, what
  Python makes of \<open>((target - price) / price) * 100\<close> for the two prices the
  source gave for the row's symbol, rounded by \<open>round(..., 2)\<close>; both prices
  are there and true in an \<open>if\<close>. For prices that are ints or finite floats
  of a magnitude between \<open>1 / 2 ^ 64\<close> and \<open>2 ^ 53\<close> this stored value is a
  finite float within half a hundredth of the exact percentage difference,
  up to the rounding of the four float operations (a relative
  \<open>1 / 2 ^ 50\<close>). Conversely a symbol whose info has such prices gets a row
  with that upside, unless a count of the recommendation table is NaN and
  \<open>int\<close> raises ValueError. The float arithmetic is not exact: for a price of
  160 and a target of 183 the row holds the double nearest to 14.37, the
  exact percentage being 14.375.
\<close>

theorem upside_potential_formula:
  "(\<forall>r \<in> set (fetch_analyst_data src tickers).
      \<exists>d pv tv u. info (src (Ticker r)) = Inr d \<and> d ''currentPrice'' = Some pv \<and>
        d ''targetMeanPrice'' = Some tv \<and> truthy pv \<and> truthy tv \<and>
        Price r = pv \<and> Target_Price r = tv \<and>
        upside_of tv pv = Inr u \<and> Upside_Potential r = round2 u) \<and>
   (\<forall>r \<in> set (fetch_analyst_data src tickers). \<forall>p t.
      num_of (Price r) = Some p \<and> num_of (Target_Price r) = Some t \<and>
      1 / 2 ^ 64 \<le> \<bar>p\<bar> \<and> \<bar>p\<bar> \<le> 2 ^ 53 \<and> \<bar>t\<bar> \<le> 2 ^ 53 \<longrightarrow>
      (\<exists>s. Upside_Potential r = Finite s \<and>
         \<bar>s - 100 * ((t - p) / p)\<bar> \<le> 1 / 200 + (\<bar>100 * ((t - p) / p)\<bar> + 1) / 2 ^ 50)) \<and>
   (\<forall>d pv tv p t. info (src symbol) = Inr d \<and> d ''currentPrice'' = Some pv \<and>
        d ''targetMeanPrice'' = Some tv \<and> num_of pv = Some p \<and> num_of tv = Some t \<and> t \<noteq> 0 \<and>
        1 / 2 ^ 64 \<le> \<bar>p\<bar> \<and> \<bar>p\<bar> \<le> 2 ^ 53 \<and> \<bar>t\<bar> \<le> 2 ^ 53 \<longrightarrow>
        (case try_body src symbol of
           Inl e \<Rightarrow> e = ValueError
         | Inr None \<Rightarrow> False
         | Inr (Some r) \<Rightarrow>
             (\<exists>s. Upside_Potential r = Finite s \<and>
                \<bar>s - 100 * ((t - p) / p)\<bar> \<le> 1 / 200 + (\<bar>100 * ((t - p) / p)\<bar> + 1) / 2 ^ 50)))"
proof (intro conjI ballI allI impI)
  fix r assume "r \<in> set (fetch_analyst_data src tickers)"
  then obtain c where "try_body src c = Inr (Some r)" using fetch_mem by blast
  from try_body_upside[OF this]
  show "\<exists>d pv tv u. info (src (Ticker r)) = Inr d \<and> d ''currentPrice'' = Some pv \<and>
        d ''targetMeanPrice'' = Some tv \<and> truthy pv \<and> truthy tv \<and>
        Price r = pv \<and> Target_Price r = tv \<and>
        upside_of tv pv = Inr u \<and> Upside_Potential r = round2 u"
    by auto
next
  fix r p t
  assume "r \<in> set (fetch_analyst_data src tickers)"
    and "num_of (Price r) = Some p \<and> num_of (Target_Price r) = Some t \<and>
      1 / 2 ^ 64 \<le> \<bar>p\<bar> \<and> \<bar>p\<bar> \<le> 2 ^ 53 \<and> \<bar>t\<bar> \<le> 2 ^ 53"
  then show "\<exists>s. Upside_Potential r = Finite s \<and>
         \<bar>s - 100 * ((t - p) / p)\<bar> \<le> 1 / 200 + (\<bar>100 * ((t - p) / p)\<bar> + 1) / 2 ^ 50"
    using row_upside_accuracy by blast
next
  fix d pv tv p t
  assume "info (src symbol) = Inr d \<and> d ''currentPrice'' = Some pv \<and>
        d ''targetMeanPrice'' = Some tv \<and> num_of pv = Some p \<and> num_of tv = Some t \<and> t \<noteq> 0 \<and>
        1 / 2 ^ 64 \<le> \<bar>p\<bar> \<and> \<bar>p\<bar> \<le> 2 ^ 53 \<and> \<bar>t\<bar> \<le> 2 ^ 53"
  then show "case try_body src symbol of
           Inl e \<Rightarrow> e = ValueError
         | Inr None \<Rightarrow> False
         | Inr (Some r) \<Rightarrow>
             (\<exists>s. Upside_Potential r = Finite s \<and>
                \<bar>s - 100 * ((t - p) / p)\<bar> \<le> 1 / 200 + (\<bar>100 * ((t - p) / p)\<bar> + 1) / 2 ^ 50)"
    using symbol_upside_accuracy by blast
qed

text \<open>
  Witness for C1: a source quoting 160 with a target of 183, once as ints
  (symbol QI) and once as floats (symbol QF). Both rows hold the double
  nearest to 14.37, which is \<open>8089590830664253 / 2 ^ 49\<close>: the product
  with 100 is a float just below 14.375, where the exact percentage, a tie,
  would go to 14.38. For a quote of 3 with a target of 4 the row holds the
  double nearest to 33.33.
\<close>

theorem upside_potential_formula_witness:
  "info (quote_remote ''QI'') = Inr quote_ints \<and> quote_ints ''currentPrice'' = Some (PInt 160) \<and>
   quote_ints ''targetMeanPrice'' = Some (PInt 183) \<and>
   (case try_body quote_remote ''QI'' of
      Inl e \<Rightarrow> e = ValueError
    | Inr None \<Rightarrow> False
    | Inr (Some r) \<Rightarrow>
        (\<exists>s. Upside_Potential r = Finite s \<and>
           \<bar>s - 100 * ((183 - 160) / 160)\<bar> \<le> 1 / 200 + (\<bar>100 * ((183 - 160) / 160)\<bar> + 1) / 2 ^ 50)) \<and>
   map Upside_Potential (fetch_analyst_data quote_remote [''QI'', ''QF'']) =
     [Finite (8089590830664253 / 562949953421312), Finite (8089590830664253 / 562949953421312)] \<and>
   map Upside_Potential (fetch_analyst_data demo_remote [''AAA'']) =
     [Finite (2345390243441541 / 70368744177664)] \<and>
   upside_of (PInt 183) (PInt 160) = Inr (Finite (8092405580431359 / 562949953421312)) \<and>
   (8092405580431359 / 562949953421312 :: rat) < 14375 / 1000 \<and>
   fl (1437 / 100) = Finite (8089590830664253 / 562949953421312) \<and>
   round_half_even (100 * (100 * ((183 - 160) / 160))) = 1438"
proof -
  have h: "info (quote_remote ''QI'') = Inr quote_ints \<and> quote_ints ''currentPrice'' = Some (PInt 160) \<and>
     quote_ints ''targetMeanPrice'' = Some (PInt 183) \<and>
     num_of (PInt 160) = Some 160 \<and> num_of (PInt 183) = Some 183 \<and> (183::rat) \<noteq> 0 \<and>
     1 / 2 ^ 64 \<le> \<bar>160::rat\<bar> \<and> \<bar>160::rat\<bar> \<le> 2 ^ 53 \<and> \<bar>183::rat\<bar> \<le> 2 ^ 53"
    by (simp add: quote_remote_def quote_ints_def)
  have v: "map Upside_Potential (fetch_analyst_data quote_remote [''QI'', ''QF'']) =
     [Finite (8089590830664253 / 562949953421312), Finite (8089590830664253 / 562949953421312)]"
    "map Upside_Potential (fetch_analyst_data demo_remote [''AAA'']) =
     [Finite (2345390243441541 / 70368744177664)]"
    "upside_of (PInt 183) (PInt 160) = Inr (Finite (8092405580431359 / 562949953421312))"
    "(8092405580431359 / 562949953421312 :: rat) < 14375 / 1000"
    "fl (1437 / 100) = Finite (8089590830664253 / 562949953421312)"
    "round_half_even (100 * (100 * ((183 - 160) / 160))) = 1438"
    by code_simp+
  from upside_potential_formula[of quote_remote "[''QI'', ''QF'']" "''QI''"] h
  have "case try_body quote_remote ''QI'' of
      Inl e \<Rightarrow> e = ValueError
    | Inr None \<Rightarrow> False
    | Inr (Some r) \<Rightarrow>
        (\<exists>s. Upside_Potential r = Finite s \<and>
           \<bar>s - 100 * ((183 - 160) / 160)\<bar> \<le> 1 / 200 + (\<bar>100 * ((183 - 160) / 160)\<bar> + 1) / 2 ^ 50)"
    by blast
  with h v show ?thesis by blast
qed

subsection \<open>The symbols asked for\<close>

lemma replace_to_ne_stem:
  "CHR ''.'' \<notin> set stem \<Longrightarrow> replace_str ''.TO'' ''.NE'' (stem @ ''.TO'') = stem @ ''.NE''"
proof (induction stem)
  case Nil
  show ?case by code_simp
next
  case (Cons x stem)
  then have "x \<noteq> CHR ''.''" by auto
  then have "\<not> startswith (x # stem @ ''.TO'') ''.TO''" by (simp add: startswith_def)
  then have "replace_str ''.TO'' ''.NE'' ((x # stem) @ ''.TO'') =
             x # replace_str ''.TO'' ''.NE'' (stem @ ''.TO'')"
    by (subst replace_str.simps) simp
  with Cons show ?case by simp
qed

lemma swap_suffix_stem: "swap_suffix (stem @ ''.TO'') = stem @ ''.NE''"
  by (simp add: swap_suffix_def)

lemma calls_for_length: "length (calls_for src t) \<le> 2"
  by (simp add: calls_for_cases)

lemma replace_dot_Nil: "replace_str ''.'' ''-'' [] = []"
  by (subst replace_str.simps) simp

lemma replace_dot_Cons:
  "replace_str ''.'' ''-'' (c # s) =
     (if c = CHR ''.'' then CHR ''-'' # replace_str ''.'' ''-'' s else c # replace_str ''.'' ''-'' s)"
  by (subst replace_str.simps) (simp add: startswith_def)

lemma replace_dot_nodot: "CHR ''.'' \<notin> set (replace_str ''.'' ''-'' s)"
  by (induction s) (simp_all add: replace_dot_Nil replace_dot_Cons)

lemma map_err_Inr:
  "map_err f xs = Inr ys \<Longrightarrow> \<forall>y \<in> set ys. \<exists>x \<in> set xs. f x = Inr y"
  by (induction xs arbitrary: ys) (auto split: sum.splits)

lemma cell_replace_nodot: "cell_replace_dot c = Inr t \<Longrightarrow> CHR ''.'' \<notin> set t"
  by (auto simp: cell_replace_dot_def replace_dot_nodot split: cell.splits)

lemma map_err_replace_nodot:
  assumes "map_err cell_replace_dot cs = Inr ts" and "t \<in> set ts"
  shows "CHR ''.'' \<notin> set t"
  using map_err_Inr[OF assms(1)] assms(2) cell_replace_nodot by blast

lemma sp500_nodot: "t \<in> set (get_sp500_tickers w) \<Longrightarrow> CHR ''.'' \<notin> set t"
  by (auto simp: get_sp500_tickers_def sp500_body_def or_empty_def
      split: sum.splits dest: map_err_replace_nodot map_err_replace_nodot[OF sym])

lemma nasdaq_nodot: "t \<in> set (get_nasdaq100_tickers w) \<Longrightarrow> CHR ''.'' \<notin> set t"
  by (auto simp: get_nasdaq100_tickers_def nasdaq100_body_def or_empty_def Let_def
      split: sum.splits option.splits if_splits
      dest: map_err_replace_nodot map_err_replace_nodot[OF sym])

lemma russell_nodot: "t \<in> set (get_russell1000_tickers w) \<Longrightarrow> CHR ''.'' \<notin> set t"
  by (auto simp: get_russell1000_tickers_def russell1000_body_def or_empty_def Let_def
      split: sum.splits option.splits if_splits
      dest: map_err_replace_nodot map_err_replace_nodot[OF sym])

lemma custom_nodot: "t \<in> set get_custom_tickers \<Longrightarrow> CHR ''.'' \<notin> set t"
  by (auto simp: get_custom_tickers_def)

lemma endswith_TO_dot: "endswith t ''.TO'' \<Longrightarrow> CHR ''.'' \<in> set t"
proof -
  assume "endswith t ''.TO''"
  then have "drop (length t - length ''.TO'') t = ''.TO''" by (simp only: endswith_def)
  then have "CHR ''.'' \<in> set (drop (length t - length ''.TO'') t)" by simp
  then show ?thesis by (rule in_set_dropD)
qed

lemma clean_ticker_shape: "\<exists>stem. clean_ticker c = stem @ ''.TO'' \<and> CHR ''.'' \<notin> set stem"
proof -
  let ?t = "replace_str ''.'' ''-'' (strip (cell_str c))"
  have nd: "CHR ''.'' \<notin> set ?t" by (rule replace_dot_nodot)
  then have "\<not> endswith ?t ''.TO''" using endswith_TO_dot by blast
  then have "clean_ticker c = ?t @ ''.TO''" by (simp add: clean_ticker_def Let_def)
  with nd show ?thesis by blast
qed

lemma tsx_shape:
  "t \<in> set (get_tsx_composite_tickers w) \<Longrightarrow> \<exists>stem. t = stem @ ''.TO'' \<and> CHR ''.'' \<notin> set stem"
  using clean_ticker_shape
  by (auto simp: get_tsx_composite_tickers_def tsx_body_def tsx_pick_def or_empty_def
      split: sum.splits option.splits if_splits)

lemma combined_shape:
  assumes "t \<in> set (combined w)"
  shows "CHR ''.'' \<notin> set t \<or> (\<exists>stem. t = stem @ ''.TO'' \<and> CHR ''.'' \<notin> set stem)"
  using assms sp500_nodot nasdaq_nodot russell_nodot custom_nodot tsx_shape
  unfolding combined_def by fastforce

lemma combined_retry_symbol:
  assumes "t \<in> set (combined w)" and "endswith t ''.TO''"
  shows "replace_str ''.TO'' ''.NE'' t = swap_suffix t"
proof -
  from combined_shape[OF assms(1)] endswith_TO_dot[OF assms(2)]
  obtain stem where "t = stem @ ''.TO''" "CHR ''.'' \<notin> set stem" by blast
  then show ?thesis by (simp add: replace_to_ne_stem swap_suffix_stem)
qed

lemma replace_to_ne_suffix:
  "\<forall>i < length stem. \<not> startswith (drop i (stem @ ''.TO'')) ''.TO'' \<Longrightarrow>
     replace_str ''.TO'' ''.NE'' (stem @ ''.TO'') = stem @ ''.NE''"
proof (induction stem)
  case Nil
  show ?case by code_simp
next
  case (Cons x stem)
  from Cons.prems have "\<not> startswith (drop 0 ((x # stem) @ ''.TO'')) ''.TO''" by blast
  then have ns: "\<not> startswith (x # stem @ ''.TO'') ''.TO''" by simp
  have "\<forall>i < length stem. \<not> startswith (drop i (stem @ ''.TO'')) ''.TO''"
  proof (intro allI impI)
    fix i assume "i < length stem"
    then have "Suc i < length (x # stem)" by simp
    with Cons.prems have "\<not> startswith (drop (Suc i) ((x # stem) @ ''.TO'')) ''.TO''" by blast
    then show "\<not> startswith (drop i (stem @ ''.TO'')) ''.TO''" by simp
  qed
  then have ih: "replace_str ''.TO'' ''.NE'' (stem @ ''.TO'') = stem @ ''.NE''" by (rule Cons.IH)
  from ns have "replace_str ''.TO'' ''.NE'' ((x # stem) @ ''.TO'') =
             x # replace_str ''.TO'' ''.NE'' (stem @ ''.TO'')"
    by (subst replace_str.simps) simp
  with ih show ?case by simp
qed

lemma suffix_only_retry_symbol:
  assumes "suffix_only t"
  shows "replace_str ''.TO'' ''.NE'' t = swap_suffix t"
proof -
  define stem where "stem = take (length t - length ''.TO'') t"
  from assms have e: "endswith t ''.TO''"
    and n: "list_all (\<lambda>i. \<not> startswith (drop i t) ''.TO'') [0..<length t - length ''.TO'']"
    by (simp_all only: suffix_only_def)
  from e have len: "length ''.TO'' \<le> length t" and d: "drop (length t - length ''.TO'') t = ''.TO''"
    by (simp_all only: endswith_def)
  have t: "t = stem @ ''.TO''"
    using d append_take_drop_id[of "length t - length ''.TO''" t] by (simp only: stem_def)
  have ls: "length stem = length t - length ''.TO''" using len by (simp add: stem_def)
  from n have "\<forall>i < length stem. \<not> startswith (drop i t) ''.TO''"
    by (simp only: ls list_all_iff) simp
  with t have "\<forall>i < length stem. \<not> startswith (drop i (stem @ ''.TO'')) ''.TO''" by simp
  then have "replace_str ''.TO'' ''.NE'' (stem @ ''.TO'') = stem @ ''.NE''"
    by (rule replace_to_ne_suffix)
  moreover have "swap_suffix (stem @ ''.TO'') = stem @ ''.NE''" by (rule swap_suffix_stem)
  ultimately show ?thesis using t by simp
qed

lemma suffix_only_calls:
  "suffix_only t \<Longrightarrow> calls_for src t = (if attempt_ok src t then [t] else [t, swap_suffix t])"
  by (simp add: calls_for_cases suffix_only_retry_symbol) (simp add: suffix_only_def)

lemma master_list_calls:
  assumes "is_master_list (combined w) ms" and "c \<in> set ms"
  shows "calls_for src c =
           (if endswith c ''.TO'' \<and> \<not> attempt_ok src c then [c, swap_suffix c] else [c])"
proof -
  from assms have "c \<in> set (combined w)" by (simp add: is_master_list_def)
  then have "endswith c ''.TO'' \<Longrightarrow> replace_str ''.TO'' ''.NE'' c = swap_suffix c"
    by (rule combined_retry_symbol)
  then show ?thesis by (auto simp: calls_for_cases)
qed

text \<open>
  Claim C2. For every ticker the remote source is asked at most twice, first
  for the ticker itself; a ticker that does not end in .TO, or whose first
  attempt succeeds, is asked for once. The calls of a run are those of its
  tickers, in order. The second symbol is \<open>ticker.replace('.TO', '.NE')\<close>:
  for a ticker in which .TO occurs only as the suffix that is the ticker with
  its suffix replaced by .NE, and every ticker of the master list the main
  block passes in is such a ticker or has no .TO at all, whatever the four
  pages hold.
\<close>

theorem attempts_at_most_two:
  "hd (calls_for src t) = t \<and> length (calls_for src t) \<le> 2 \<and>
   (\<not> endswith t ''.TO'' \<longrightarrow> calls_for src t = [t]) \<and>
   (attempt_ok src t \<longrightarrow> calls_for src t = [t]) \<and>
   (suffix_only t \<longrightarrow>
      calls_for src t = (if attempt_ok src t then [t] else [t, swap_suffix t])) \<and>
   remote_calls src ts = concat (map (calls_for src) ts) \<and>
   (is_master_list (combined w) ms \<longrightarrow>
      (\<forall>c \<in> set ms. calls_for src c =
         (if endswith c ''.TO'' \<and> \<not> attempt_ok src c then [c, swap_suffix c] else [c])))"
proof (intro conjI impI ballI)
  show "hd (calls_for src t) = t" by (simp add: calls_for_cases)
  show "length (calls_for src t) \<le> 2" by (rule calls_for_length)
  show "calls_for src t = [t]" if "\<not> endswith t ''.TO''" using that by (simp add: calls_for_cases)
  show "calls_for src t = [t]" if "attempt_ok src t" using that by (simp add: calls_for_cases)
  show "calls_for src t = (if attempt_ok src t then [t] else [t, swap_suffix t])" if "suffix_only t"
    using that by (rule suffix_only_calls)
  show "remote_calls src ts = concat (map (calls_for src) ts)" by (rule remote_calls_concat)
  show "calls_for src c =
         (if endswith c ''.TO'' \<and> \<not> attempt_ok src c then [c, swap_suffix c] else [c])"
    if "is_master_list (combined w) ms" and "c \<in> set ms" for c
    using that by (rule master_list_calls)
qed

text \<open>
  Witness for C2: A.B.TO, in which .TO occurs only as the suffix, fails and is
  retried as A.B.NE; BBB.TO, a ticker of the master list of a web with four
  tables, fails and is retried as BBB.NE; AAA succeeds at once; ZZZ fails and
  is not retried.
\<close>

theorem attempts_at_most_two_witness:
  "suffix_only ''A.B.TO'' \<and> \<not> attempt_ok remote_down ''A.B.TO'' \<and>
   calls_for remote_down ''A.B.TO'' = [''A.B.TO'', ''A.B.NE''] \<and>
   is_master_list (combined demo_web) (remdups (combined demo_web)) \<and>
   ''BBB.TO'' \<in> set (remdups (combined demo_web)) \<and>
   calls_for demo_remote ''BBB.TO'' = [''BBB.TO'', ''BBB.NE''] \<and>
   attempt_ok demo_remote ''AAA'' \<and> calls_for demo_remote ''AAA'' = [''AAA''] \<and>
   \<not> endswith ''ZZZ'' ''.TO'' \<and> calls_for demo_remote ''ZZZ'' = [''ZZZ''] \<and>
   remote_calls demo_remote [''AAA'', ''ZZZ'', ''BBB.TO''] = [''AAA'', ''ZZZ'', ''BBB.TO'', ''BBB.NE'']"
proof -
  have a: "suffix_only ''A.B.TO''" "\<not> attempt_ok remote_down ''A.B.TO''"
    "swap_suffix ''A.B.TO'' = ''A.B.NE''"
    "''BBB.TO'' \<in> set (remdups (combined demo_web))"
    "endswith ''BBB.TO'' ''.TO''" "\<not> attempt_ok demo_remote ''BBB.TO''"
    "swap_suffix ''BBB.TO'' = ''BBB.NE''"
    "attempt_ok demo_remote ''AAA''" "\<not> endswith ''ZZZ'' ''.TO''"
    by code_simp+
  have m: "is_master_list (combined demo_web) (remdups (combined demo_web))"
    by (simp add: is_master_list_def)
  note t1 = attempts_at_most_two[of remote_down "''A.B.TO''" "[]" demo_web "[]"]
  note t2 = attempts_at_most_two[of demo_remote "''AAA''" "[''AAA'', ''ZZZ'', ''BBB.TO'']" demo_web
      "remdups (combined demo_web)"]
  note t3 = attempts_at_most_two[of demo_remote "''ZZZ''" "[]" demo_web "[]"]
  from t1 a have 1: "calls_for remote_down ''A.B.TO'' = [''A.B.TO'', ''A.B.NE'']" by simp
  from t2 m a have 2: "calls_for demo_remote ''BBB.TO'' = [''BBB.TO'', ''BBB.NE'']" by simp
  from t2 a have 3: "calls_for demo_remote ''AAA'' = [''AAA'']" by blast
  from t3 a have 4: "calls_for demo_remote ''ZZZ'' = [''ZZZ'']" by blast
  from t2 have "remote_calls demo_remote [''AAA'', ''ZZZ'', ''BBB.TO''] =
      concat (map (calls_for demo_remote) [''AAA'', ''ZZZ'', ''BBB.TO''])" by blast
  with 2 3 4 have 5: "remote_calls demo_remote [''AAA'', ''ZZZ'', ''BBB.TO''] =
      [''AAA'', ''ZZZ'', ''BBB.TO'', ''BBB.NE'']" by simp
  from a m 1 2 3 4 5 show ?thesis by blast
qed

subsection \<open>Failures and rows\<close>

lemma hd_calls_for: "t \<in> set (calls_for src t)"
  by (simp add: calls_for_cases)

lemma every_ticker_called: "t \<in> set ts \<Longrightarrow> t \<in> set (remote_calls src ts)"
  using hd_calls_for by (auto simp: remote_calls_concat)

lemma rows_for_length: "length (rows_for src t) = (if some_attempt_ok src t then 1 else 0)"
  by (simp add: rows_for_eq found_rows_length some_attempt_ok_def)

lemma fetch_length: "length (fetch_analyst_data src ts) = length (filter (some_attempt_ok src) ts)"
  by (induction ts) (simp_all add: fetch_concat rows_for_length)

lemma fetch_append:
  "fetch_analyst_data src (xs @ ys) = fetch_analyst_data src xs @ fetch_analyst_data src ys"
  by (simp add: fetch_concat)

text \<open>
  Claim C3. Whatever happens with one ticker, an exception included, the
  tickers after it are processed as if it had not been there: the rows of a
  list are the rows of its front part followed by those of its rest, the same
  holds of the calls to the remote source, and every ticker of the list is
  asked for. The dataframe has one row for each ticker with a successful
  attempt and none for the others.
\<close>

theorem failures_do_not_stop_run:
  "fetch_analyst_data src (xs @ ys) = fetch_analyst_data src xs @ fetch_analyst_data src ys \<and>
   remote_calls src (xs @ ys) = remote_calls src xs @ remote_calls src ys \<and>
   (\<forall>t \<in> set ts. t \<in> set (remote_calls src ts)) \<and>
   fetch_analyst_data src ts = concat (map (rows_for src) ts) \<and>
   (\<forall>t. length (rows_for src t) = (if some_attempt_ok src t then 1 else 0)) \<and>
   length (fetch_analyst_data src ts) = length (filter (some_attempt_ok src) ts)"
  using fetch_append[of src xs ys] every_ticker_called[of _ ts src] fetch_concat[of src ts]
    rows_for_length[of src] fetch_length[of src ts]
  by (simp add: remote_calls_concat)

text \<open>
  Witness for C3: the source raises for ZZZ, answers for AAA, and answers for
  BBB.TO on the second attempt; the failure of ZZZ leaves the two rows of the
  others as they are.
\<close>

theorem failures_do_not_stop_run_witness:
  "\<not> some_attempt_ok demo_remote ''ZZZ'' \<and> some_attempt_ok demo_remote ''AAA'' \<and>
   some_attempt_ok demo_remote ''BBB.TO'' \<and>
   fetch_analyst_data demo_remote ([''ZZZ''] @ [''AAA'', ''BBB.TO'']) =
     fetch_analyst_data demo_remote [''AAA'', ''BBB.TO''] \<and>
   length (fetch_analyst_data demo_remote [''ZZZ'', ''AAA'', ''BBB.TO'']) = 2 \<and>
   ''AAA'' \<in> set (remote_calls demo_remote [''ZZZ'', ''AAA'', ''BBB.TO''])"
proof -
  have a: "\<not> some_attempt_ok demo_remote ''ZZZ''" "some_attempt_ok demo_remote ''AAA''"
    "some_attempt_ok demo_remote ''BBB.TO''"
    by code_simp+
  have b: "fetch_analyst_data demo_remote [''ZZZ''] = []"
    by code_simp
  note c = failures_do_not_stop_run[of demo_remote "[''ZZZ'']" "[''AAA'', ''BBB.TO'']"
      "[''ZZZ'', ''AAA'', ''BBB.TO'']"]
  from c b have 1: "fetch_analyst_data demo_remote ([''ZZZ''] @ [''AAA'', ''BBB.TO'']) =
     fetch_analyst_data demo_remote [''AAA'', ''BBB.TO'']"
    by simp
  from c have "length (fetch_analyst_data demo_remote [''ZZZ'', ''AAA'', ''BBB.TO'']) =
      length (filter (some_attempt_ok demo_remote) [''ZZZ'', ''AAA'', ''BBB.TO''])"
    by blast
  with a have 2: "length (fetch_analyst_data demo_remote [''ZZZ'', ''AAA'', ''BBB.TO'']) = 2"
    by simp
  from c have "\<forall>t \<in> set [''ZZZ'', ''AAA'', ''BBB.TO''].
      t \<in> set (remote_calls demo_remote [''ZZZ'', ''AAA'', ''BBB.TO''])"
    by blast
  then have 3: "''AAA'' \<in> set (remote_calls demo_remote [''ZZZ'', ''AAA'', ''BBB.TO''])"
    by simp
  from a 1 2 3 show ?thesis by blast
qed

subsection \<open>Fields that may be null\<close>

text \<open>
  Claim C9. The claim is that only the two P/E ratios of a row may be null.
  The code gives the sector the default \<open>'Unknown'\<close> (and the rating, the
  currency and the number of analysts theirs) through \<open>info.get(key, default)\<close>,
  which hands the default out only when the key is missing. The source
  answers with keys that are present and \<open>None\<close>, as the line after the
  dividend yield expects, where \<open>None\<close> is tested for and replaced by 0; the
  four other fields have no such test. For the symbol AAA, whose info holds
  \<open>'sector': None\<close> and \<open>'dividendYield': None\<close>, the row's dividend yield
  is 0 and its sector is null, while the symbol QI, whose info has no sector,
  gets \<open>'Unknown'\<close>. The test for \<open>None\<close> does not catch NaN either: a NaN
  yield is stored as it is.
\<close>

theorem null_sector_slips_past_default:
  "info (demo_remote ''AAA'') = Inr demo_info \<and>
   demo_info ''sector'' = Some PNone \<and> demo_info ''dividendYield'' = Some PNone \<and>
   map Ticker (fetch_analyst_data demo_remote [''AAA'']) = [''AAA''] \<and>
   map Dividend_Yield (fetch_analyst_data demo_remote [''AAA'']) = [PInt 0] \<and>
   map Sector (fetch_analyst_data demo_remote [''AAA'']) = [PNone] \<and>
   quote_ints ''sector'' = None \<and>
   map Sector (fetch_analyst_data quote_remote [''QI'']) = [PStr ''Unknown''] \<and>
   map Dividend_Yield (fetch_analyst_data nan_remote [''AAA'']) = [PFloat NaN]"
proof -
  have a: "info (demo_remote ''AAA'') = Inr demo_info"
    by (simp add: demo_remote_def)
  have b: "demo_info ''sector'' = Some PNone" "demo_info ''dividendYield'' = Some PNone"
    "quote_ints ''sector'' = None"
    by (simp_all add: demo_info_def quote_ints_def)
  have c: "map Ticker (fetch_analyst_data demo_remote [''AAA'']) = [''AAA'']"
    "map Dividend_Yield (fetch_analyst_data demo_remote [''AAA'']) = [PInt 0]"
    "map Sector (fetch_analyst_data demo_remote [''AAA'']) = [PNone]"
    "map Sector (fetch_analyst_data quote_remote [''QI'']) = [PStr ''Unknown'']"
    "map Dividend_Yield (fetch_analyst_data nan_remote [''AAA'']) = [PFloat NaN]"
    by code_simp+
  from a b c show ?thesis by simp
qed

section \<open>The ticker universe\<close>



section \<open>The dashboard's filter, sort and start\<close>

lemma ge_floor_mono: "m \<le> m' \<Longrightarrow> ge_floor v m' \<Longrightarrow> ge_floor v m"
  by (auto simp: ge_floor_def split: option.splits)

lemma filter_filter_imp: "(\<And>x. P x \<Longrightarrow> Q x) \<Longrightarrow> filter P xs = filter P (filter Q xs)"
  by (induction xs) auto

text \<open>
  Claim C5. With the dataframe, the rating set and the sector set fixed,
  raising any of the three floors (here all three at once, each possibly by
  nothing) never adds a row: the new result is the old result filtered again,
  so its rows are among the old ones and it is no longer.
\<close>

theorem floor_filters_monotonic:
  assumes "a \<le> a'" and "u \<le> u'" and "d \<le> d'"
  shows "filtered_df df a' u' d' rf ss = filtered_df (filtered_df df a u d rf ss) a' u' d' rf ss \<and>
         set (filtered_df df a' u' d' rf ss) \<subseteq> set (filtered_df df a u d rf ss) \<and>
         length (filtered_df df a' u' d' rf ss) \<le> length (filtered_df df a u d rf ss)"
proof -
  have "(of_int a :: rat) \<le> of_int a'" using assms(1) by simp
  then have a: "\<And>v. ge_floor v (of_int a') \<Longrightarrow> ge_floor v (of_int a)"
    by (rule ge_floor_mono)
  have eq: "filtered_df df a' u' d' rf ss = filtered_df (filtered_df df a u d rf ss) a' u' d' rf ss"
    unfolding filtered_df_def
    by (rule filter_filter_imp)
      (use a ge_floor_mono[OF assms(2)] ge_floor_mono[OF assms(3)] in blast)
  have "set (filtered_df (filtered_df df a u d rf ss) a' u' d' rf ss) \<subseteq> set (filtered_df df a u d rf ss)"
    by (auto simp: filtered_df_def[of "filtered_df df a u d rf ss"])
  moreover have "length (filtered_df (filtered_df df a u d rf ss) a' u' d' rf ss)
        \<le> length (filtered_df df a u d rf ss)"
    by (simp add: filtered_df_def[of "filtered_df df a u d rf ss"])
  ultimately show ?thesis using eq by simp
qed

text \<open>
  Witness for C5: on four rows, two of them with a NaN, raising the analyst
  floor from 0 to 10 and the upside floor from 0 to 20 leaves one row of two.
\<close>

theorem floor_filters_monotonic_witness:
  "(0::int) \<le> 10 \<and> (0::rat) \<le> 20 \<and> (0::rat) \<le> 0 \<and>
   map ticker (filtered_df demo_df 0 0 0 [Some ''buy''] [''Energy'']) = [''AAA'', ''BBB''] \<and>
   map ticker (filtered_df demo_df 10 20 0 [Some ''buy''] [''Energy'']) = [''BBB''] \<and>
   set (filtered_df demo_df 10 20 0 [Some ''buy''] [''Energy''])
     \<subseteq> set (filtered_df demo_df 0 0 0 [Some ''buy''] [''Energy'']) \<and>
   length (filtered_df demo_df 10 20 0 [Some ''buy''] [''Energy''])
     \<le> length (filtered_df demo_df 0 0 0 [Some ''buy''] [''Energy''])"
proof -
  have h: "(0::int) \<le> 10" "(0::rat) \<le> 20" "(0::rat) \<le> 0" by simp_all
  have v: "map ticker (filtered_df demo_df 0 0 0 [Some ''buy''] [''Energy'']) = [''AAA'', ''BBB'']"
    "map ticker (filtered_df demo_df 10 20 0 [Some ''buy''] [''Energy'']) = [''BBB'']"
    by code_simp+
  from floor_filters_monotonic[OF h, of demo_df "[Some ''buy'']" "[''Energy'']"] h v
  show ?thesis by blast
qed

lemma sorted_neg: "sorted (map (\<lambda>r. - f r) xs) \<longleftrightarrow> sorted_wrt (\<lambda>x y. y \<le> x) (map f xs)"
  for f :: "'a \<Rightarrow> rat"
  by (simp add: sorted_wrt_map)

lemma map_filter_present:
  "List.map_filter key xs = map (\<lambda>r. num_or_zero (key r)) (filter (\<lambda>r. key r \<noteq> None) xs)"
  by (induction xs) (auto simp: num_or_zero_def split: option.splits)

lemma map_filter_append: "List.map_filter f (xs @ ys) = List.map_filter f xs @ List.map_filter f ys"
  by (simp add: List.map_filter_def)

lemma map_filter_missing: "List.map_filter key (filter (\<lambda>r. key r = None) xs) = []"
  by (induction xs) auto

lemma filter_present_sort:
  "filter (\<lambda>r. key r \<noteq> None) (sort_key k (filter (\<lambda>r. key r \<noteq> None) xs)) =
     sort_key k (filter (\<lambda>r. key r \<noteq> None) xs)"
  by (rule filter_True) simp

lemma present_values_sort_values:
  "present_values key (sort_values key asc df) =
     map (\<lambda>r. num_or_zero (key r))
       (if asc then sort_key (\<lambda>r. num_or_zero (key r)) (filter (\<lambda>r. key r \<noteq> None) df)
        else sort_key (\<lambda>r. - num_or_zero (key r)) (filter (\<lambda>r. key r \<noteq> None) df))"
  unfolding present_values_def sort_values_def Let_def map_filter_append map_filter_missing
  by (simp add: map_filter_present filter_present_sort)

lemma sort_values_asc: "sorted (present_values key (sort_values key True df))"
  by (simp add: present_values_sort_values)

lemma sort_values_desc: "sorted_wrt (\<lambda>x y. y \<le> x) (present_values key (sort_values key False df))"
  unfolding present_values_sort_values
  by (simp add: sorted_neg[symmetric])

lemma mset_sort_values: "mset (sort_values key asc df) = mset df"
  by (simp add: sort_values_def Let_def)

lemma sort_values_nan_last:
  "map key (sort_values key asc df) =
     map Some (present_values key (sort_values key asc df)) @
     replicate (length (filter (\<lambda>r. key r = None) df)) None"
proof -
  have m: "map key (filter (\<lambda>r. key r = None) df) =
           replicate (length (filter (\<lambda>r. key r = None) df)) None"
    by (induction df) auto
  have p: "\<And>xs. \<forall>r \<in> set xs. key r \<noteq> None \<Longrightarrow>
             map key xs = map Some (map (\<lambda>r. num_or_zero (key r)) xs)"
    by (auto simp: num_or_zero_def)
  show ?thesis
    unfolding present_values_sort_values
    by (simp add: sort_values_def Let_def m p)
qed

text \<open>
  Claim C6. The direction flag is false for Upside\_Potential and true for
  Forward\_PE and Trailing\_PE; accordingly the upside values of the displayed
  table descend and the P/E values ascend. The table has the rows of the
  filtered one, and the rows without a value in the sort column come last.
\<close>

theorem sort_direction_flip:
  "\<not> ascending ''Upside_Potential'' \<and> ascending ''Forward_PE'' \<and> ascending ''Trailing_PE'' \<and>
   sorted_wrt (\<lambda>x y. y \<le> x) (present_values upside_potential (sorted_df df ''Upside_Potential'')) \<and>
   sorted (present_values forward_pe (sorted_df df ''Forward_PE'')) \<and>
   sorted (present_values trailing_pe (sorted_df df ''Trailing_PE'')) \<and>
   mset (sorted_df df sort_col) = mset df \<and>
   map (column_of sort_col) (sorted_df df sort_col) =
     map Some (present_values (column_of sort_col) (sorted_df df sort_col)) @
     replicate (length (filter (\<lambda>r. column_of sort_col r = None) df)) None"
proof -
  have c: "column_of ''Upside_Potential'' = upside_potential" "column_of ''Forward_PE'' = forward_pe"
    "column_of ''Trailing_PE'' = trailing_pe"
    by (rule ext, simp add: column_of_def)+
  have a: "\<not> ascending ''Upside_Potential''" "ascending ''Forward_PE''" "ascending ''Trailing_PE''"
    by (simp_all add: ascending_def)
  show ?thesis
    using a sort_values_desc[of upside_potential df] sort_values_asc[of forward_pe df]
      sort_values_asc[of trailing_pe df] mset_sort_values[of "column_of sort_col" "ascending sort_col" df]
      sort_values_nan_last[of "column_of sort_col" "ascending sort_col" df]
    by (simp add: sorted_df_def c)
qed

text \<open>
  Witness for C6: four rows sorted by upside (40, 25, 10, then the NaN) and by
  forward P/E (8, 15, 30, then the NaN).
\<close>

theorem sort_direction_flip_witness:
  "map ticker (sorted_df demo_df ''Upside_Potential'') = [''CCC'', ''BBB'', ''AAA'', ''DDD''] \<and>
   present_values upside_potential (sorted_df demo_df ''Upside_Potential'') = [40, 25, 10] \<and>
   sorted_wrt (\<lambda>x y. y \<le> x) (present_values upside_potential (sorted_df demo_df ''Upside_Potential'')) \<and>
   map ticker (sorted_df demo_df ''Forward_PE'') = [''CCC'', ''DDD'', ''AAA'', ''BBB''] \<and>
   present_values forward_pe (sorted_df demo_df ''Forward_PE'') = [8, 15, 30] \<and>
   sorted (present_values forward_pe (sorted_df demo_df ''Forward_PE''))"
proof -
  have v: "map ticker (sorted_df demo_df ''Upside_Potential'') = [''CCC'', ''BBB'', ''AAA'', ''DDD'']"
    "present_values upside_potential (sorted_df demo_df ''Upside_Potential'') = [40, 25, 10]"
    "map ticker (sorted_df demo_df ''Forward_PE'') = [''CCC'', ''DDD'', ''AAA'', ''BBB'']"
    "present_values forward_pe (sorted_df demo_df ''Forward_PE'') = [8, 15, 30]"
    by code_simp+
  from sort_direction_flip[of demo_df "''Forward_PE''"] v show ?thesis by blast
qed

text \<open>
  Claim C7. With the file missing, \<open>read_csv\<close> raises FileNotFoundError,
  \<open>load_data\<close> catches it and returns \<open>None\<close>, and the script started without
  a cached value shows the error and stops. Whatever the cache holds, a
  missing file never makes the start raise: with a cached value the body of
  \<open>load_data\<close> does not run and the script goes on with what was cached.
\<close>

theorem missing_file_clean_error:
  "read_csv None = Inl FileNotFoundError \<and> load_data None = Inr None \<and>
   app_start None None = Error_shown_and_stopped \<and>
   app_start cache None =
     (case cache of None \<Rightarrow> Error_shown_and_stopped
      | Some None \<Rightarrow> Error_shown_and_stopped
      | Some (Some df) \<Rightarrow> Proceeds df) \<and>
   (\<forall>e. app_start cache None \<noteq> Crashed e)"
  by (simp add: read_csv_def load_data_def app_start_def cached_load_data_def
      split: option.splits)

text \<open>
  Witness for C7: the start with an empty cache, and with a table cached
  before the file went missing.
\<close>

theorem missing_file_clean_error_witness:
  "app_start None None = Error_shown_and_stopped \<and>
   app_start (Some (Some demo_df)) None = Proceeds demo_df \<and>
   app_start (Some (Some demo_df)) None \<noteq> Crashed FileNotFoundError"
  using missing_file_clean_error[of "Some (Some demo_df)"] by simp


end
